theory Spec2Isabelle
  imports Complex_Main "HOL-Library.Sublist"
begin

section \<open>Numbers, rounding and errors\<close>

text \<open>
  The pricing engine computes with Python floats. They are modelled as real numbers: a
  value of the model is the exact result of the formula, and the float of the code lies
  next to it. The difference can change what the code returns only where the exact value
  sits on a boundary: a decimal tie in \<open>round\<close> (0.165 to two decimals), or equality where a
  computed quotient is compared with a threshold. There the code goes one way or the other
  according to the representation error of the operands (\<open>0.15 * 1.1\<close> rounds to 0.17,
  \<open>(3.3 - 3.0) / 3.0\<close> falls below 0.1), which the reals do not have. So the model takes the
  direction from a parameter, \<open>float_tie\<close> of the environment, asked with the place in the
  code and the operands of the computation; every theorem holds for every such parameter.
  Quantities are Python integers (\<open>int\<close>), taken to lie in the range of a float (a larger one
  makes \<open>quantity / 20.0\<close> raise \<open>OverflowError\<close>).

  \<open>round(x, ndigits)\<close> rounds to the nearest multiple of \<open>10 ^ -ndigits\<close>; at a tie it goes up
  when \<open>up\<close> holds and down otherwise.
\<close>

definition round_nearest :: "bool \<Rightarrow> real \<Rightarrow> int" where
  "round_nearest up y =
     (let f = \<lfloor>y\<rfloor>; d = y - of_int f in
      if d < 1 / 2 then f
      else if 1 / 2 < d then f + 1
      else if up then f + 1 else f)"

definition py_round :: "bool \<Rightarrow> real \<Rightarrow> nat \<Rightarrow> real" where
  "py_round up x ndigits = of_int (round_nearest up (x * 10 ^ ndigits)) / 10 ^ ndigits"

text \<open>
  \<open>x >= y\<close> for a computed float \<open>x\<close>: decided by the exact values unless they are equal.
\<close>

definition float_ge :: "bool \<Rightarrow> real \<Rightarrow> real \<Rightarrow> bool" where
  "float_ge tie x y = (if x = y then tie else x \<ge> y)"

text \<open>
  What it means that \<open>r\<close> is \<open>x\<close> rounded to \<open>n\<close> decimals, whichever way a tie goes: \<open>r\<close> is a
  multiple of \<open>10 ^ -n\<close> and lies within half a unit of the last digit of \<open>x\<close>. The properties
  of the rounded results are stated with it.
\<close>

definition rounds_to :: "real \<Rightarrow> nat \<Rightarrow> real \<Rightarrow> bool" where
  "rounds_to x n r =
     (r * 10 ^ n = of_int \<lfloor>r * 10 ^ n\<rfloor> \<and> \<bar>r - x\<bar> * 10 ^ n \<le> 1 / 2)"

text \<open>
  The exceptions the pipeline can raise: a \<open>KeyError\<close> (a column missing from a data frame,
  a key missing from a dict), a \<open>ZeroDivisionError\<close> of Python floats, and the \<open>ValueError\<close>
  of \<open>max\<close> on an empty sequence. \<open>str_of_error\<close> is Python's \<open>str(e)\<close>, with the
  messages of CPython 3.11.
\<close>

datatype error = KeyError string | ZeroDivisionError | ValueError

fun str_of_error :: "error \<Rightarrow> string" where
  "str_of_error (KeyError k) = [CHR 0x27] @ k @ [CHR 0x27]"
| "str_of_error ZeroDivisionError = ''float division by zero''"
| "str_of_error ValueError = ''max() arg is an empty sequence''"

section \<open>Reference data\<close>

text \<open>
  The CSV tables are pandas data frames. A frame that could not be loaded is the frame
  \<open>pd.DataFrame()\<close>, which has no columns: \<open>.empty\<close> is true for it, and selecting a column
  from it raises \<open>KeyError\<close>. A loaded frame is the list of its rows, in file order.
\<close>

datatype 'r frame = NoColumns | Frame "'r list"

fun empty_frame :: "'r frame \<Rightarrow> bool" where
  "empty_frame NoColumns = True"
| "empty_frame (Frame rows) = (rows = [])"

fun frame_rows :: "'r frame \<Rightarrow> 'r list" where
  "frame_rows NoColumns = []"
| "frame_rows (Frame rows) = rows"

record products_row =
  products_sku :: string
  products_product_id :: string
  products_family :: string

record customers_row =
  customers_customer_id :: string
  customers_segment :: string
  customers_industry :: string
  customers_region :: string

record cogs_row =
  cogs_product_id :: string
  cogs_cogs :: real

text \<open>
  \<open>policy_bands\<close> is the value of \<open>json.loads(approval_bands_json)['bands']\<close>, and \<open>None\<close>
  when that expression raises.
\<close>

record policy_row =
  policy_region :: string
  policy_family :: string
  policy_min_margin_pct :: real
  policy_ceiling_pct :: real
  policy_bands :: "string list option"

text \<open>The engineered feature vector of the win-rate classifier.\<close>

record features =
  f_margin_pct :: real
  f_discount_depth :: real
  f_price_vs_competitor :: real
  f_quantity :: int
  f_segment :: string
  f_channel :: string
  f_region :: string
  f_family :: string
  f_volume_tier :: string
  f_price_position :: string

text \<open>
  The process-lifetime state: the reference tables and the trained classifier.
  \<open>predict_proba\<close> is the probability of the class "won" that the classifier (with its label
  encoders) gives to a feature vector; it is a parameter of the model. \<open>float_tie\<close> is the
  parameter for the float boundaries: \<open>float_tie e place operands\<close> tells whether the float
  computed at \<open>place\<close> from \<open>operands\<close> falls on the upper side when the exact value is on the
  boundary.
\<close>

record env =
  products_df :: "products_row frame"
  customers_df :: "customers_row frame"
  cogs_df :: "cogs_row frame"
  policy_df :: "policy_row frame"
  predict_proba :: "features \<Rightarrow> real"
  float_tie :: "string \<Rightarrow> real list \<Rightarrow> bool"

section \<open>The context\<close>

record rules_result =
  floor_price :: real
  ceiling_price :: real
  min_margin_pct :: real
  approval_bands :: "string list"
  policy_source :: string

text \<open>
  The context is a dict; a key that may be absent is an option. \<open>rules\<close> holds the keys that
  \<open>context.update(rules_result)\<close> merges in. The key \<open>list_price\<close> is never set by any caller,
  so \<open>context.get('list_price', d)\<close> is always \<open>d\<close>.
\<close>

record pricing_context =
  sku :: string
  customer_id :: string
  quantity :: int
  country :: string
  channel :: string
  currency :: string
  product_id :: "string option"
  product_family :: "string option"
  cogs :: "real option"
  customer_segment :: "string option"
  industry :: "string option"
  region :: "string option"
  competitor_price :: "real option"
  proposed_price :: "real option"
  target_price :: "real option"
  current_price :: "real option"
  stretch_price :: "real option"
  rules :: "rules_result option"

definition get_or :: "'a option \<Rightarrow> 'a \<Rightarrow> 'a" where
  "get_or v d = (case v of None \<Rightarrow> d | Some x \<Rightarrow> x)"

definition getitem :: "string \<Rightarrow> 'a option \<Rightarrow> error + 'a" where
  "getitem k v = (case v of None \<Rightarrow> Inl (KeyError k) | Some x \<Rightarrow> Inr x)"

section \<open>Context enrichment\<close>

definition add_product_data :: "env \<Rightarrow> pricing_context \<Rightarrow> pricing_context" where
  "add_product_data e c =
     (if \<not> empty_frame (products_df e) then
        (case filter (\<lambda>r. products_sku r = sku c) (frame_rows (products_df e)) of
           [] \<Rightarrow> c
         | product_row # _ \<Rightarrow>
             (let c1 = c\<lparr>product_id := Some (products_product_id product_row),
                         product_family := Some (products_family product_row)\<rparr>;
                  pid = products_product_id product_row
              in if \<not> empty_frame (cogs_df e) then
                   (case filter (\<lambda>r. cogs_product_id r = pid) (frame_rows (cogs_df e)) of
                      [] \<Rightarrow> c1
                    | cogs_row # _ \<Rightarrow> c1\<lparr>cogs := Some (cogs_cogs cogs_row)\<rparr>)
                 else c1))
      else c)"

definition add_customer_data :: "env \<Rightarrow> pricing_context \<Rightarrow> pricing_context" where
  "add_customer_data e c =
     (if \<not> empty_frame (customers_df e) then
        (case filter (\<lambda>r. customers_customer_id r = customer_id c) (frame_rows (customers_df e)) of
           [] \<Rightarrow> c
         | customer_row # _ \<Rightarrow>
             c\<lparr>customer_segment := Some (customers_segment customer_row),
               industry := Some (customers_industry customer_row),
               region := Some (customers_region customer_row)\<rparr>)
      else c)"

definition set_defaults :: "pricing_context \<Rightarrow> error + pricing_context" where
  "set_defaults c =
     (let c1 = (case product_family c of None \<Rightarrow> c\<lparr>product_family := Some ''Widgets''\<rparr> | Some _ \<Rightarrow> c);
          c2 = (case cogs c1 of None \<Rightarrow> c1\<lparr>cogs := Some 80\<rparr> | Some _ \<Rightarrow> c1);
          c3 = (case customer_segment c2 of None \<Rightarrow> c2\<lparr>customer_segment := Some ''Enterprise''\<rparr> | Some _ \<Rightarrow> c2);
          c4 = (case region c3 of None \<Rightarrow> c3\<lparr>region := Some ''EMEA''\<rparr> | Some _ \<Rightarrow> c3)
      in case getitem ''cogs'' (cogs c4) of
           Inl err \<Rightarrow> Inl err
         | Inr cg \<Rightarrow>
             Inr (case competitor_price c4 of
                    None \<Rightarrow> c4\<lparr>competitor_price := Some (cg * 1.3)\<rparr>
                  | Some _ \<Rightarrow> c4))"

definition initial_context :: "string \<Rightarrow> string \<Rightarrow> int \<Rightarrow> string \<Rightarrow> string \<Rightarrow> string \<Rightarrow> pricing_context" where
  "initial_context s cid q co ch cu =
     \<lparr>sku = s, customer_id = cid, quantity = q, country = co, channel = ch, currency = cu,
      product_id = None, product_family = None, cogs = None, customer_segment = None,
      industry = None, region = None, competitor_price = None, proposed_price = None,
      target_price = None, current_price = None, stretch_price = None, rules = None\<rparr>"

definition enrich_context ::
  "env \<Rightarrow> string \<Rightarrow> string \<Rightarrow> int \<Rightarrow> string \<Rightarrow> string \<Rightarrow> string \<Rightarrow> error + pricing_context" where
  "enrich_context e s cid q co ch cu =
     set_defaults (add_customer_data e (add_product_data e (initial_context s cid q co ch cu)))"

section \<open>Rules agent\<close>

definition default_bands :: "string list" where
  "default_bands = [''APPROVED'', ''REVIEW'', ''REJECT'']"

definition rules_execute :: "env \<Rightarrow> pricing_context \<Rightarrow> error + rules_result" where
  "rules_execute e c =
     (let rg = get_or (region c) ''EMEA'';
          fam = get_or (product_family c) ''Widgets'';
          cg = get_or (cogs c) 100
      in case policy_df e of
           NoColumns \<Rightarrow> Inl (KeyError ''region'')
         | Frame rows \<Rightarrow>
             (let policy_rows = filter (\<lambda>r. policy_region r = rg \<and> policy_family r = fam) rows;
                  (mm, cp, bands) =
                    (case policy_rows of
                       [] \<Rightarrow> (0.10, 2.0, default_bands)
                     | policy # _ \<Rightarrow>
                         (policy_min_margin_pct policy, policy_ceiling_pct policy,
                          get_or (policy_bands policy) default_bands));
                  fp = cg * (1 + mm);
                  clp = cg * cp
              in Inr \<lparr>floor_price = py_round (float_tie e ''floor_price'' [cg, mm]) fp 2,
                      ceiling_price = py_round (float_tie e ''ceiling_price'' [cg, cp]) clp 2,
                      min_margin_pct = mm, approval_bands = bands,
                      policy_source = rg @ ''-'' @ fam\<rparr>))"

definition get_approval_band :: "env \<Rightarrow> real \<Rightarrow> real \<Rightarrow> pricing_context \<Rightarrow> error + string" where
  "get_approval_band e price cg c =
     (case rules_execute e c of
        Inl err \<Rightarrow> Inl err
      | Inr rr \<Rightarrow>
          (let margin_pct = (if cg > 0 then (price - cg) / cg else 0);
               meets = (if cg > 0
                        then float_ge (float_tie e ''margin_pct'' [price, cg, min_margin_pct rr])
                               margin_pct (min_margin_pct rr)
                        else margin_pct \<ge> min_margin_pct rr)
           in Inr (if meets
                   then (if price \<le> ceiling_price rr then ''APPROVED'' else ''REVIEW'')
                   else ''REJECT'')))"

section \<open>Elasticity agent\<close>

record elasticity_param =
  base_elasticity :: real
  volume_adj :: real

definition elasticity_params :: "(string \<times> string) \<rightharpoonup> elasticity_param" where
  "elasticity_params = map_of
     [((''Enterprise'', ''EMEA''), \<lparr>base_elasticity = -1.2, volume_adj = 0.1\<rparr>),
      ((''Enterprise'', ''Americas''), \<lparr>base_elasticity = -1.1, volume_adj = 0.12\<rparr>),
      ((''SMB'', ''EMEA''), \<lparr>base_elasticity = -1.8, volume_adj = 0.05\<rparr>),
      ((''SMB'', ''Americas''), \<lparr>base_elasticity = -1.7, volume_adj = 0.08\<rparr>)]"

definition default_params :: elasticity_param where
  "default_params = \<lparr>base_elasticity = -1.5, volume_adj = 0.08\<rparr>"

record elasticity_result =
  price_elasticity :: real
  demand_change_pct :: real
  new_quantity_estimate :: real
  revenue_change_pct :: real
  suggested_price :: real
  elasticity_segment :: string

text \<open>The local variables of \<open>ElasticityAgent.execute\<close>, each as a function of the context.\<close>

definition params_of :: "pricing_context \<Rightarrow> elasticity_param" where
  "params_of c =
     (case elasticity_params (get_or (customer_segment c) ''Enterprise'', get_or (region c) ''EMEA'') of
        Some p \<Rightarrow> p
      | None \<Rightarrow> default_params)"

definition current_price_of :: "pricing_context \<Rightarrow> real" where
  "current_price_of c = get_or (current_price c) (get_or (target_price c) 100)"

definition proposed_price_of :: "pricing_context \<Rightarrow> real" where
  "proposed_price_of c = get_or (proposed_price c) (current_price_of c)"

definition volume_factor :: "pricing_context \<Rightarrow> real" where
  "volume_factor c = min 1 (real_of_int (quantity c) / 20)"

definition adjusted_elasticity :: "pricing_context \<Rightarrow> real" where
  "adjusted_elasticity c =
     base_elasticity (params_of c) * (1 - volume_factor c * volume_adj (params_of c))"

definition price_change_pct :: "pricing_context \<Rightarrow> real" where
  "price_change_pct c =
     (if current_price_of c > 0
      then (proposed_price_of c - current_price_of c) / current_price_of c else 0)"

definition demand_change :: "pricing_context \<Rightarrow> real" where
  "demand_change c = adjusted_elasticity c * price_change_pct c"

definition new_quantity :: "pricing_context \<Rightarrow> real" where
  "new_quantity c = max 1 (real_of_int (quantity c) * (1 + demand_change c))"

definition revenue_change :: "pricing_context \<Rightarrow> real" where
  "revenue_change c =
     (let current_revenue = current_price_of c * real_of_int (quantity c);
          new_revenue = proposed_price_of c * new_quantity c
      in if current_revenue > 0 then (new_revenue - current_revenue) / current_revenue else 0)"

definition suggested :: "pricing_context \<Rightarrow> error + real" where
  "suggested c =
     (let cg = get_or (cogs c) (current_price_of c * 0.7)
      in if adjusted_elasticity c < -1 then
           (let optimal_markup = -1 / (adjusted_elasticity c + 1)
            in if 1 - optimal_markup = 0 then Inl ZeroDivisionError
               else Inr (cg / (1 - optimal_markup)))
         else Inr (current_price_of c))"

text \<open>The operands of the agent's computations, for \<open>float_tie\<close>.\<close>

definition elasticity_operands :: "pricing_context \<Rightarrow> real list" where
  "elasticity_operands c =
     [base_elasticity (params_of c), volume_adj (params_of c), real_of_int (quantity c),
      current_price_of c, proposed_price_of c, get_or (cogs c) (current_price_of c * 0.7)]"

definition elasticity_execute :: "env \<Rightarrow> pricing_context \<Rightarrow> error + elasticity_result" where
  "elasticity_execute e c =
     (case suggested c of
        Inl err \<Rightarrow> Inl err
      | Inr sp \<Rightarrow>
          Inr \<lparr>price_elasticity =
                 py_round (float_tie e ''price_elasticity'' (elasticity_operands c))
                   (adjusted_elasticity c) 2,
               demand_change_pct =
                 py_round (float_tie e ''demand_change_pct'' (elasticity_operands c))
                   (demand_change c) 3,
               new_quantity_estimate =
                 py_round (float_tie e ''new_quantity_estimate'' (elasticity_operands c))
                   (new_quantity c) 1,
               revenue_change_pct =
                 py_round (float_tie e ''revenue_change_pct'' (elasticity_operands c))
                   (revenue_change c) 3,
               suggested_price =
                 py_round (float_tie e ''suggested_price'' (elasticity_operands c)) sp 2,
               elasticity_segment =
                 get_or (customer_segment c) ''Enterprise'' @ ''-'' @ get_or (region c) ''EMEA''\<rparr>)"

section \<open>Win-rate agent\<close>

record winrate_result =
  win_probability :: real
  confidence :: string
  model_features :: features

text \<open>
  \<open>np_scalar\<close> tells whether the proposed price is a \<open>numpy.float64\<close> (a point of
  \<open>np.linspace\<close>) or a Python float: dividing a Python float by zero raises, while for a numpy
  scalar \<open>0 / 0\<close> is \<open>nan\<close>, and \<open>max(0, nan)\<close> is \<open>0\<close>.
\<close>

definition discount_depth :: "bool \<Rightarrow> real \<Rightarrow> error + real" where
  "discount_depth np_scalar price =
     (let list_price = price * 1.2
      in if list_price = 0 then (if np_scalar then Inr 0 else Inl ZeroDivisionError)
         else Inr (max 0 ((list_price - price) / list_price)))"

definition volume_tier :: "int \<Rightarrow> string" where
  "volume_tier q =
     (if q \<le> 5 then ''Small'' else if q \<le> 15 then ''Medium''
      else if q \<le> 30 then ''Large'' else ''XLarge'')"

definition price_position :: "real \<Rightarrow> string" where
  "price_position pvc =
     (if pvc < 0.9 then ''Below'' else if pvc \<le> 1.1 then ''Match'' else ''Above'')"

definition winrate_execute :: "env \<Rightarrow> bool \<Rightarrow> pricing_context \<Rightarrow> error + winrate_result" where
  "winrate_execute e np_scalar c =
     (let price = get_or (proposed_price c) (get_or (target_price c) 100);
          comp = get_or (competitor_price c) (price * 1.05);
          cg = get_or (cogs c) 80;
          margin_pct = (if cg > 0 then (price - cg) / cg else 0)
      in case discount_depth np_scalar price of
           Inl err \<Rightarrow> Inl err
         | Inr dd \<Rightarrow>
             (let pvc = (if comp > 0 then price / comp else 1);
                  fs = \<lparr>f_margin_pct = margin_pct, f_discount_depth = dd,
                        f_price_vs_competitor = pvc, f_quantity = quantity c,
                        f_segment = get_or (customer_segment c) ''Enterprise'',
                        f_channel = channel c,
                        f_region = get_or (region c) ''EMEA'',
                        f_family = get_or (product_family c) ''Widgets'',
                        f_volume_tier = volume_tier (quantity c),
                        f_price_position = price_position pvc\<rparr>;
                  p = predict_proba e fs
              in Inr \<lparr>win_probability = py_round (float_tie e ''win_probability'' [p]) p 3,
                      confidence = (if max (1 - p) p > 0.7 then ''High'' else ''Medium''),
                      model_features = fs\<rparr>))"

text \<open>
  \<open>get_win_curve\<close> is only called with a range made by \<open>np.linspace\<close>, so its prices are
  numpy scalars.
\<close>

record curve_point =
  cp_price :: real
  cp_p_win :: real

text \<open>
  The loop of \<open>get_win_curve\<close> over the prices that are left; \<open>price_range\<close> is the whole
  range, from which each price was computed.
\<close>

fun curve_points ::
  "env \<Rightarrow> pricing_context \<Rightarrow> real list \<Rightarrow> real list \<Rightarrow> error + curve_point list" where
  "curve_points e c price_range [] = Inr []"
| "curve_points e c price_range (price # rest) =
     (case winrate_execute e True (c\<lparr>proposed_price := Some price\<rparr>) of
        Inl err \<Rightarrow> Inl err
      | Inr res \<Rightarrow>
          (case curve_points e c price_range rest of
             Inl err \<Rightarrow> Inl err
           | Inr pts \<Rightarrow>
               Inr (\<lparr>cp_price = py_round (float_tie e ''curve_price'' (price # price_range)) price 2,
                     cp_p_win = win_probability res\<rparr> # pts)))"

definition winrate_get_win_curve ::
  "env \<Rightarrow> pricing_context \<Rightarrow> real list \<Rightarrow> error + curve_point list" where
  "winrate_get_win_curve e c price_range = curve_points e c price_range price_range"

section \<open>Orchestrator\<close>

text \<open>
  \<open>np.linspace(start, stop, num)\<close>: \<open>num\<close> samples \<open>start + i * step\<close> with
  \<open>step = (stop - start) / (num - 1)\<close>, the last one set to \<open>stop\<close>.
\<close>

definition linspace :: "real \<Rightarrow> real \<Rightarrow> nat \<Rightarrow> real list" where
  "linspace start stop num =
     (let step = (stop - start) / real (num - 1);
          y = map (\<lambda>i. start + real i * step) [0..<num]
      in if num > 1 then y[num - 1 := stop] else y)"

text \<open>
  \<open>max(xs, key=f)\<close> keeps the first element and replaces it only by a strictly larger one;
  it raises \<open>ValueError\<close> on an empty sequence.
\<close>

fun max_from :: "('a \<Rightarrow> real) \<Rightarrow> 'a \<Rightarrow> 'a list \<Rightarrow> 'a" where
  "max_from key best [] = best"
| "max_from key best (x # xs) = max_from key (if key x > key best then x else best) xs"

definition py_max :: "('a \<Rightarrow> real) \<Rightarrow> 'a list \<Rightarrow> error + 'a" where
  "py_max key xs = (case xs of [] \<Rightarrow> Inl ValueError | x # rest \<Rightarrow> Inr (max_from key x rest))"

record candidate =
  c_price :: real
  c_expected_margin :: real
  c_win_probability :: real
  c_margin :: real
  c_elasticity_score :: real

text \<open>The body of the candidate loop of \<open>recommend_price\<close> (step 4), and the loop.\<close>

definition score_candidate :: "env \<Rightarrow> pricing_context \<Rightarrow> real \<Rightarrow> error + candidate" where
  "score_candidate e c price =
     (let candidate_context = c\<lparr>proposed_price := Some price, target_price := Some price\<rparr>
      in case winrate_execute e True candidate_context of
           Inl err \<Rightarrow> Inl err
         | Inr winrate_res \<Rightarrow>
             (case elasticity_execute e candidate_context of
                Inl err \<Rightarrow> Inl err
              | Inr elasticity_res \<Rightarrow>
                  (case getitem ''cogs'' (cogs c) of
                     Inl err \<Rightarrow> Inl err
                   | Inr cg \<Rightarrow>
                       (let margin = price - cg;
                            win_prob = win_probability winrate_res
                        in Inr \<lparr>c_price = price, c_expected_margin = margin * win_prob,
                                c_win_probability = win_prob, c_margin = margin,
                                c_elasticity_score = revenue_change_pct elasticity_res\<rparr>))))"

fun candidate_scores :: "env \<Rightarrow> pricing_context \<Rightarrow> real list \<Rightarrow> error + candidate list" where
  "candidate_scores e c [] = Inr []"
| "candidate_scores e c (price # rest) =
     (case score_candidate e c price of
        Inl err \<Rightarrow> Inl err
      | Inr s \<Rightarrow>
          (case candidate_scores e c rest of
             Inl err \<Rightarrow> Inl err
           | Inr ss \<Rightarrow> Inr (s # ss)))"

text \<open>Step 5: the stretch price among the viable candidates.\<close>

definition select_stretch :: "candidate list \<Rightarrow> real \<Rightarrow> error + real" where
  "select_stretch scores ceiling_p =
     (let viable_candidates = filter (\<lambda>x. c_win_probability x > 0.2) scores
      in if viable_candidates \<noteq> [] then
           (case py_max c_price viable_candidates of
              Inl err \<Rightarrow> Inl err
            | Inr best \<Rightarrow> Inr (c_price best))
         else Inr ceiling_p)"

text \<open>
  Steps 1 to 5 of \<open>recommend_price\<close>: the enriched context with the policy bounds merged in,
  the bounds, the scored candidates, the target candidate and the stretch price.
\<close>

record selection =
  sel_context :: pricing_context
  sel_rules :: rules_result
  sel_scores :: "candidate list"
  sel_target :: candidate
  sel_stretch :: real

definition select_prices ::
  "env \<Rightarrow> string \<Rightarrow> string \<Rightarrow> int \<Rightarrow> string \<Rightarrow> string \<Rightarrow> string \<Rightarrow> error + selection" where
  "select_prices e s cid q co ch cu =
     (case enrich_context e s cid q co ch cu of
        Inl err \<Rightarrow> Inl err
      | Inr c0 \<Rightarrow>
          (case rules_execute e c0 of
             Inl err \<Rightarrow> Inl err
           | Inr rules_res \<Rightarrow>
               (let c = c0\<lparr>rules := Some rules_res\<rparr>;
                    price_candidates = linspace (floor_price rules_res) (ceiling_price rules_res) 20
                in case candidate_scores e c price_candidates of
                     Inl err \<Rightarrow> Inl err
                   | Inr scores \<Rightarrow>
                       (case py_max c_expected_margin scores of
                          Inl err \<Rightarrow> Inl err
                        | Inr target_candidate \<Rightarrow>
                            (case select_stretch scores (ceiling_price rules_res) of
                               Inl err \<Rightarrow> Inl err
                             | Inr stretch_p \<Rightarrow>
                                 Inr \<lparr>sel_context = c, sel_rules = rules_res, sel_scores = scores,
                                      sel_target = target_candidate, sel_stretch = stretch_p\<rparr>)))))"

definition calculate_confidence :: "winrate_result \<Rightarrow> elasticity_result \<Rightarrow> rules_result \<Rightarrow> string" where
  "calculate_confidence winrate_res elasticity_res rules_res =
     (let f1 = (if win_probability winrate_res > 0.6 then 1
                else if win_probability winrate_res > 0.4 then 0.7 else 0.3);
          f2 = (if \<bar>price_elasticity elasticity_res\<bar> < 2 then 0.9 else 0.5);
          f3 = (if \<exists>b \<in> set (approval_bands rules_res). sublist ''APPROVED'' b then 1 else 0.6);
          avg_confidence = (f1 + f2 + f3) / (3::real)
      in if avg_confidence > 0.8 then ''High''
         else if avg_confidence > 0.6 then ''Medium'' else ''Low'')"

text \<open>
  The recommendation. Its texts (\<open>reasons\<close>, \<open>agent_insights\<close>) are strings formatted from the
  values below by the explainer, which reads the context and cannot raise on it; they are
  left out, but for the approval band that the policy reason quotes.
\<close>

record recommendation =
  rec_floor :: real
  target :: real
  stretch :: real
  p_win_at_target :: real
  policy_compliance :: string
  confidence_score :: string

definition recommend_price ::
  "env \<Rightarrow> string \<Rightarrow> string \<Rightarrow> int \<Rightarrow> string \<Rightarrow> string \<Rightarrow> string \<Rightarrow> error + recommendation" where
  "recommend_price e s cid q co ch cu =
     (case select_prices e s cid q co ch cu of
        Inl err \<Rightarrow> Inl err
      | Inr sel \<Rightarrow>
          (let c = sel_context sel;
               rules_res = sel_rules sel;
               target_p = c_price (sel_target sel);
               final_context = c\<lparr>target_price := Some target_p, proposed_price := Some target_p,
                                 stretch_price := Some (sel_stretch sel)\<rparr>
           in case winrate_execute e True final_context of
                Inl err \<Rightarrow> Inl err
              | Inr final_winrate \<Rightarrow>
                  (case elasticity_execute e final_context of
                     Inl err \<Rightarrow> Inl err
                   | Inr final_elasticity \<Rightarrow>
                       (case getitem ''cogs'' (cogs c) of
                          Inl err \<Rightarrow> Inl err
                        | Inr cg \<Rightarrow>
                            (case get_approval_band e target_p cg c of
                               Inl err \<Rightarrow> Inl err
                             | Inr band \<Rightarrow>
                                 Inr \<lparr>rec_floor =
                                        py_round (float_tie e ''floor'' [floor_price rules_res])
                                          (floor_price rules_res) 2,
                                      target =
                                        py_round
                                          (float_tie e ''target''
                                             [floor_price rules_res, ceiling_price rules_res, target_p])
                                          target_p 2,
                                      stretch =
                                        py_round
                                          (float_tie e ''stretch''
                                             [floor_price rules_res, ceiling_price rules_res,
                                              sel_stretch sel])
                                          (sel_stretch sel) 2,
                                      p_win_at_target = win_probability final_winrate,
                                      policy_compliance = band,
                                      confidence_score =
                                        calculate_confidence final_winrate final_elasticity rules_res\<rparr>)))))"

text \<open>
  The score of a proposed price. \<open>elasticity_impact\<close> is the \<open>demand_change_pct\<close> of the
  elasticity agent's result, which the reason "Elasticity impact" reports.
\<close>

record score_result =
  p_win :: real
  expected_margin :: real
  approval_band :: string
  elasticity_impact :: real

definition score_price ::
  "env \<Rightarrow> string \<Rightarrow> string \<Rightarrow> int \<Rightarrow> string \<Rightarrow> string \<Rightarrow> string \<Rightarrow> real \<Rightarrow> error + score_result" where
  "score_price e s cid q co ch cu price =
     (case enrich_context e s cid q co ch cu of
        Inl err \<Rightarrow> Inl err
      | Inr c0 \<Rightarrow>
          (let c = c0\<lparr>proposed_price := Some price\<rparr>
           in case rules_execute e c of
                Inl err \<Rightarrow> Inl err
              | Inr rules_res \<Rightarrow>
                  (case winrate_execute e False c of
                     Inl err \<Rightarrow> Inl err
                   | Inr winrate_res \<Rightarrow>
                       (case elasticity_execute e c of
                          Inl err \<Rightarrow> Inl err
                        | Inr elasticity_res \<Rightarrow>
                            (case getitem ''cogs'' (cogs c) of
                               Inl err \<Rightarrow> Inl err
                             | Inr cg \<Rightarrow>
                                 (case get_approval_band e price cg c of
                                    Inl err \<Rightarrow> Inl err
                                  | Inr band \<Rightarrow>
                                      Inr \<lparr>p_win = win_probability winrate_res,
                                           expected_margin =
                                             py_round
                                               (float_tie e ''expected_margin''
                                                  [price, cg, win_probability winrate_res])
                                               ((price - cg) * win_probability winrate_res) 2,
                                           approval_band = band,
                                           elasticity_impact = demand_change_pct elasticity_res\<rparr>))))))"

definition get_win_curve ::
  "env \<Rightarrow> string \<Rightarrow> string \<Rightarrow> int \<Rightarrow> string \<Rightarrow> string \<Rightarrow> string \<Rightarrow> error + curve_point list" where
  "get_win_curve e s cid q co ch cu =
     (case enrich_context e s cid q co ch cu of
        Inl err \<Rightarrow> Inl err
      | Inr c \<Rightarrow>
          (case rules_execute e c of
             Inl err \<Rightarrow> Inl err
           | Inr rules_res \<Rightarrow>
               winrate_get_win_curve e c
                 (linspace (floor_price rules_res) (ceiling_price rules_res) 15)))"

section \<open>The service boundary\<close>

text \<open>
  \<open>recommend\<close> and \<open>score\<close> wrap the orchestrator in \<open>try ... except Exception as e\<close> and
  return the dict \<open>{"error": str(e)}\<close> on an exception; \<open>curve\<close> returns the empty list.
\<close>

datatype 'a response = Result 'a | Error string

definition recommend ::
  "env \<Rightarrow> string \<Rightarrow> string \<Rightarrow> int \<Rightarrow> string \<Rightarrow> string \<Rightarrow> string \<Rightarrow> recommendation response" where
  "recommend e s cid q co ch cu =
     (case recommend_price e s cid q co ch cu of
        Inr res \<Rightarrow> Result res
      | Inl err \<Rightarrow> Error (str_of_error err))"

definition score ::
  "env \<Rightarrow> string \<Rightarrow> string \<Rightarrow> int \<Rightarrow> string \<Rightarrow> string \<Rightarrow> string \<Rightarrow> real \<Rightarrow> score_result response" where
  "score e s cid q co ch cu price =
     (case score_price e s cid q co ch cu price of
        Inr res \<Rightarrow> Result res
      | Inl err \<Rightarrow> Error (str_of_error err))"

definition curve ::
  "env \<Rightarrow> string \<Rightarrow> string \<Rightarrow> int \<Rightarrow> string \<Rightarrow> string \<Rightarrow> string \<Rightarrow> curve_point list" where
  "curve e s cid q co ch cu =
     (case get_win_curve e s cid q co ch cu of
        Inr res \<Rightarrow> res
      | Inl err \<Rightarrow> [])"

section \<open>Lookups and example data\<close>

text \<open>
  What a lookup in a reference table finds: the first row with the key, if there is one.
  The properties of the enrichment are stated against these.
\<close>

definition product_lookup :: "env \<Rightarrow> string \<Rightarrow> products_row option" where
  "product_lookup e s = find (\<lambda>r. products_sku r = s) (frame_rows (products_df e))"

definition cost_lookup :: "env \<Rightarrow> string \<Rightarrow> cogs_row option" where
  "cost_lookup e pid = find (\<lambda>r. cogs_product_id r = pid) (frame_rows (cogs_df e))"

definition customer_lookup :: "env \<Rightarrow> string \<Rightarrow> customers_row option" where
  "customer_lookup e cid = find (\<lambda>r. customers_customer_id r = cid) (frame_rows (customers_df e))"

definition policy_lookup :: "env \<Rightarrow> string \<Rightarrow> string \<Rightarrow> policy_row option" where
  "policy_lookup e rg fam =
     find (\<lambda>r. policy_region r = rg \<and> policy_family r = fam) (frame_rows (policy_df e))"

text \<open>
  The approval band as the specification words it: the margin is \<open>(price - cogs) / cogs\<close> for
  every \<open>cogs\<close>. It is compared with \<open>get_approval_band\<close>, which is the code.
\<close>

definition spec_approval_band :: "real \<Rightarrow> real \<Rightarrow> rules_result \<Rightarrow> string" where
  "spec_approval_band price cg rr =
     (let margin_pct = (price - cg) / cg
      in if margin_pct < min_margin_pct rr then ''REJECT''
         else if price \<le> ceiling_price rr then ''APPROVED'' else ''REVIEW'')"

text \<open>
  A small data set for running the model: one product, one customer, one cost row, an empty
  policy table (so the default policy applies), a classifier that depends on the margin,
  and floats that fall on the upper side of every boundary.
\<close>

definition example_env :: env where
  "example_env =
     \<lparr>products_df = Frame [\<lparr>products_sku = ''SKU-001'', products_product_id = ''P-1'',
                            products_family = ''Gadgets''\<rparr>],
      customers_df = Frame [\<lparr>customers_customer_id = ''C-100'', customers_segment = ''SMB'',
                             customers_industry = ''Retail'', customers_region = ''Americas''\<rparr>],
      cogs_df = Frame [\<lparr>cogs_product_id = ''P-1'', cogs_cogs = 50\<rparr>],
      policy_df = Frame [],
      predict_proba = (\<lambda>f. if f_margin_pct f < 1 / 2 then 0.65 else 0.15),
      float_tie = (\<lambda>place operands. True)\<rparr>"


text \<open>A context as the enrichment makes it, with a proposed price.\<close>

definition example_context :: pricing_context where
  "example_context =
     (initial_context ''SKU-001'' ''C-100'' 10 ''DE'' ''Direct'' ''EUR'')
       \<lparr>cogs := Some 80, customer_segment := Some ''Enterprise'', region := Some ''EMEA'',
        proposed_price := Some 110\<rparr>"

text \<open>
  Variants of the example: a cost that does not round to itself, a negative cost, an order
  of seven units, a policy row whose floor lies above its ceiling, a product that costs ten
  cents, and an environment whose policy table could not be loaded.
\<close>

definition odd_cost_context :: pricing_context where
  "odd_cost_context = example_context\<lparr>cogs := Some 33.33\<rparr>"

definition negative_cost_context :: pricing_context where
  "negative_cost_context = example_context\<lparr>cogs := Some (- 10)\<rparr>"

definition seven_units_context :: pricing_context where
  "seven_units_context = example_context\<lparr>quantity := 7\<rparr>"


definition cheap_env :: env where
  "cheap_env = example_env\<lparr>cogs_df := Frame [\<lparr>cogs_product_id = ''P-1'', cogs_cogs = 0.1\<rparr>]\<rparr>"

definition unloaded_env :: env where
  "unloaded_env = example_env\<lparr>policy_df := NoColumns\<rparr>"

section \<open>Rounding\<close>

lemma round_nearest_bounds:
  "of_int (round_nearest up y) - 1 / 2 \<le> y \<and> y \<le> of_int (round_nearest up y) + 1 / 2"
  unfolding round_nearest_def Let_def by (auto; linarith)

lemma round_nearest_of_int [simp]: "round_nearest up (of_int k) = k"
  by (simp add: round_nearest_def)

lemma round_nearest_0 [simp]: "round_nearest up 0 = 0"
  by (simp add: round_nearest_def)

lemma round_nearest_strict:
  assumes "x + 1 < y" shows "round_nearest u x < round_nearest v y"
proof -
  have "(of_int (round_nearest u x) :: real) < of_int (round_nearest v y)"
    using round_nearest_bounds[of u x] round_nearest_bounds[of v y] assms by linarith
  then show ?thesis by simp
qed

lemma round_nearest_mono_less:
  assumes "x < y" shows "round_nearest u x \<le> round_nearest v y"
proof -
  have "(of_int (round_nearest u x) :: real) < of_int (round_nearest v y) + 1"
    using round_nearest_bounds[of u x] round_nearest_bounds[of v y] assms by linarith
  then have "(of_int (round_nearest u x) :: real) < of_int (round_nearest v y + 1)" by simp
  then have "round_nearest u x < round_nearest v y + 1" by (simp only: of_int_less_iff)
  then show ?thesis by simp
qed

lemma round_nearest_ge_int:
  assumes "of_int k \<le> y" shows "k \<le> round_nearest up y"
proof -
  have "(of_int k :: real) < of_int (round_nearest up y) + 1"
    using round_nearest_bounds[of up y] assms by linarith
  then have "(of_int k :: real) < of_int (round_nearest up y + 1)" by simp
  then have "k < round_nearest up y + 1" by (simp only: of_int_less_iff)
  then show ?thesis by simp
qed

lemma round_nearest_le_int:
  assumes "y \<le> of_int k" shows "round_nearest up y \<le> k"
proof -
  have "(of_int (round_nearest up y) :: real) < of_int k + 1"
    using round_nearest_bounds[of up y] assms by linarith
  then have "(of_int (round_nearest up y) :: real) < of_int (k + 1)" by simp
  then have "round_nearest up y < k + 1" by (simp only: of_int_less_iff)
  then show ?thesis by simp
qed

lemma round_nearest_no_tie:
  assumes "y - of_int \<lfloor>y\<rfloor> \<noteq> 1 / 2"
  shows "round_nearest u y = round_nearest v y"
  using assms by (simp add: round_nearest_def Let_def)

lemma py_round_exact [simp]: "py_round up (of_int k / 10 ^ n) n = of_int k / 10 ^ n"
  by (simp add: py_round_def)

lemma py_round_0 [simp]: "py_round up 0 n = 0"
  by (simp add: py_round_def)

lemma py_round_ge:
  assumes "of_int k / 10 ^ n \<le> x" shows "of_int k / 10 ^ n \<le> py_round up x n"
proof -
  have "of_int k \<le> x * 10 ^ n" using assms by (simp add: pos_divide_le_eq)
  then have "k \<le> round_nearest up (x * 10 ^ n)" by (rule round_nearest_ge_int)
  then have "(of_int k :: real) \<le> of_int (round_nearest up (x * 10 ^ n))" by simp
  then show ?thesis unfolding py_round_def by (intro divide_right_mono) auto
qed

lemma py_round_le:
  assumes "x \<le> of_int k / 10 ^ n" shows "py_round up x n \<le> of_int k / 10 ^ n"
proof -
  have "x * 10 ^ n \<le> of_int k" using assms by (simp add: pos_le_divide_eq)
  then have "round_nearest up (x * 10 ^ n) \<le> k" by (rule round_nearest_le_int)
  then have "(of_int (round_nearest up (x * 10 ^ n)) :: real) \<le> of_int k" by simp
  then show ?thesis unfolding py_round_def by (intro divide_right_mono) auto
qed

lemma py_round_nonpos: "x \<le> 0 \<Longrightarrow> py_round up x n \<le> 0"
  using py_round_le[of x 0 n up] by simp

lemma py_round_strict:
  assumes "x + 1 / 10 ^ n < y" shows "py_round u x n < py_round v y n"
proof -
  have "x * 10 ^ n + 1 < y * 10 ^ n"
  proof -
    have "(x + 1 / 10 ^ n) * 10 ^ n < y * 10 ^ n"
      using assms by (intro mult_strict_right_mono) auto
    then show ?thesis by (simp add: distrib_right)
  qed
  then have "round_nearest u (x * 10 ^ n) < round_nearest v (y * 10 ^ n)"
    by (rule round_nearest_strict)
  then show ?thesis
    unfolding py_round_def by (intro divide_strict_right_mono) auto
qed

lemma py_round_mono_less:
  assumes "x < y" shows "py_round u x n \<le> py_round v y n"
proof -
  have "x * 10 ^ n < y * 10 ^ n" using assms by simp
  then have "round_nearest u (x * 10 ^ n) \<le> round_nearest v (y * 10 ^ n)"
    by (rule round_nearest_mono_less)
  then show ?thesis
    unfolding py_round_def by (intro divide_right_mono) auto
qed

lemma py_round_no_tie:
  assumes "x * 10 ^ n - of_int \<lfloor>x * 10 ^ n\<rfloor> \<noteq> 1 / 2"
  shows "py_round u x n = py_round v x n"
  unfolding py_round_def using round_nearest_no_tie[OF assms, of u v] by simp

lemma py_round_rounds_to: "rounds_to x n (py_round up x n)"
proof -
  have a: "py_round up x n * 10 ^ n = of_int (round_nearest up (x * 10 ^ n))"
    by (simp add: py_round_def)
  have "\<bar>py_round up x n - x\<bar> * 10 ^ n = \<bar>(py_round up x n - x) * 10 ^ n\<bar>"
    by (simp add: abs_mult)
  also have "\<dots> = \<bar>py_round up x n * 10 ^ n - x * 10 ^ n\<bar>"
    by (simp only: left_diff_distrib)
  also have "\<dots> \<le> 1 / 2"
    unfolding a using round_nearest_bounds[of up "x * 10 ^ n"] by linarith
  finally show ?thesis
    unfolding rounds_to_def using a by simp
qed

lemma rounds_to_0:
  assumes "rounds_to 0 n r" shows "r = 0"
proof -
  from assms have i: "r * 10 ^ n = of_int \<lfloor>r * 10 ^ n\<rfloor>" and b: "\<bar>r * 10 ^ n\<bar> \<le> 1 / 2"
    by (simp_all add: rounds_to_def abs_mult)
  from b have "\<lfloor>r * 10 ^ n\<rfloor> = 0" using i by linarith
  with i show ?thesis by simp
qed

text \<open>
  A point of a grid of 19 steps between two prices of two decimals is never a tie of two
  decimals: its hundredfold is \<open>N / 19\<close> for an integer \<open>N\<close>, and \<open>2 * N = 19 * (2 * m + 1)\<close>
  has an even and an odd side.
\<close>

lemma grid_no_tie:
  fixes a b :: int and i :: nat
  defines "x \<equiv> of_int a / 100 + real i * ((of_int b / 100 - of_int a / 100) / 19)"
  shows "py_round u x 2 = py_round v x 2"
proof (rule py_round_no_tie)
  define N where "N = 19 * a + int i * (b - a)"
  have y: "x * 10 ^ 2 = of_int N / 19"
    by (simp add: x_def N_def field_simps)
  show "x * 10 ^ 2 - of_int \<lfloor>x * 10 ^ 2\<rfloor> \<noteq> 1 / 2"
  proof
    assume "x * 10 ^ 2 - of_int \<lfloor>x * 10 ^ 2\<rfloor> = 1 / 2"
    then have "of_int N / 19 - of_int \<lfloor>x * 10 ^ 2\<rfloor> = (1 / 2 :: real)" by (simp only: y)
    then have "real_of_int (2 * N) = real_of_int (38 * \<lfloor>x * 10 ^ 2\<rfloor> + 19)"
      by (simp add: field_simps)
    then have "2 * N = 38 * \<lfloor>x * 10 ^ 2\<rfloor> + 19" by (simp only: of_int_eq_iff)
    then show False by presburger
  qed
qed

lemma length_linspace [simp]: "length (linspace a b n) = n"
  by (simp add: linspace_def Let_def)

lemma linspace_nth:
  assumes "2 \<le> n" "i < n"
  shows "linspace a b n ! i = a + real i * ((b - a) / real (n - 1))"
proof (cases "i = n - 1")
  case True
  have "a + real (n - 1) * ((b - a) / real (n - 1)) = b"
    using assms by simp
  with True assms show ?thesis
    by (simp add: linspace_def Let_def)
next
  case False
  with assms show ?thesis
    by (simp add: linspace_def Let_def)
qed

lemma linspace_bounds:
  assumes "2 \<le> n" "i < n" "a \<le> b"
  shows "a \<le> linspace a b n ! i \<and> linspace a b n ! i \<le> b"
proof -
  have "real i \<le> real (n - 1)" using assms by simp
  then have "real i * ((b - a) / real (n - 1)) \<le> real (n - 1) * ((b - a) / real (n - 1))"
    using assms by (intro mult_right_mono) auto
  also have "\<dots> = b - a" using assms by simp
  finally have "real i * ((b - a) / real (n - 1)) \<le> b - a" .
  moreover have "0 \<le> real i * ((b - a) / real (n - 1))" using assms by simp
  ultimately show ?thesis using assms by (simp add: linspace_nth)
qed

lemma linspace_step:
  assumes "2 \<le> n" "Suc i < n"
  shows "linspace a b n ! Suc i - linspace a b n ! i = (b - a) / real (n - 1)"
proof -
  have "i < n" using assms by simp
  then have "linspace a b n ! Suc i - linspace a b n ! i =
      (real i + 1) * ((b - a) / real (n - 1)) - real i * ((b - a) / real (n - 1))"
    using assms by (simp only: linspace_nth) simp
  also have "\<dots> = (b - a) / real (n - 1)"
    by (simp only: distrib_right) simp
  finally show ?thesis .
qed


lemma max_from_spec:
  "key best \<le> key (max_from key best xs) \<and>
   (\<forall>x \<in> set xs. key x \<le> key (max_from key best xs)) \<and>
   (max_from key best xs = best \<or>
    (\<exists>k < length xs. max_from key best xs = xs ! k \<and> key best < key (xs ! k) \<and>
       (\<forall>j < k. key (xs ! j) < key (xs ! k))))"
proof (induction xs arbitrary: best)
  case Nil
  then show ?case by simp
next
  case (Cons y ys)
  let ?b = "if key y > key best then y else best"
  let ?m = "max_from key ?b ys"
  from Cons.IH[of ?b] have ih1: "key ?b \<le> key ?m"
    and ih2: "\<forall>x \<in> set ys. key x \<le> key ?m"
    and ih3: "?m = ?b \<or> (\<exists>k < length ys. ?m = ys ! k \<and> key ?b < key (ys ! k) \<and>
       (\<forall>j < k. key (ys ! j) < key (ys ! k)))" by blast+
  have m: "max_from key best (y # ys) = ?m" by simp
  have a: "key best \<le> key ?m" using ih1 by (auto split: if_splits)
  have b: "key y \<le> key ?m" using ih1 by (auto split: if_splits)
  have c: "?m = best \<or> (\<exists>k < length (y # ys). ?m = (y # ys) ! k \<and> key best < key ((y # ys) ! k) \<and>
       (\<forall>j < k. key ((y # ys) ! j) < key ((y # ys) ! k)))"
    using ih3
  proof
    assume eq: "?m = ?b"
    show ?thesis
    proof (cases "key y > key best")
      case True
      with eq have "?m = (y # ys) ! 0 \<and> key best < key ((y # ys) ! 0)" by simp
      then show ?thesis by (metis length_Cons not_less_zero zero_less_Suc)
    next
      case False
      with eq show ?thesis by simp
    qed
  next
    assume "\<exists>k < length ys. ?m = ys ! k \<and> key ?b < key (ys ! k) \<and>
       (\<forall>j < k. key (ys ! j) < key (ys ! k))"
    then obtain k where k: "k < length ys" "?m = ys ! k" "key ?b < key (ys ! k)"
      "\<forall>j < k. key (ys ! j) < key (ys ! k)" by blast
    have "key best < key (ys ! k)" "key y < key (ys ! k)"
      using k(3) by (auto split: if_splits)
    then have "Suc k < length (y # ys) \<and> ?m = (y # ys) ! Suc k \<and> key best < key ((y # ys) ! Suc k) \<and>
       (\<forall>j < Suc k. key ((y # ys) ! j) < key ((y # ys) ! Suc k))"
      using k by (auto simp: nth_Cons split: nat.splits)
    then show ?thesis by blast
  qed
  show ?case unfolding m using a b c ih2 by auto
qed

lemma py_max_first:
  assumes "py_max key xs = Inr m"
  shows "\<exists>k < length xs. m = xs ! k \<and> (\<forall>j < length xs. key (xs ! j) \<le> key m) \<and>
           (\<forall>j < k. key (xs ! j) < key m)"
proof (cases xs)
  case Nil
  with assms show ?thesis by (simp add: py_max_def)
next
  case (Cons x rest)
  with assms have m: "m = max_from key x rest" by (simp add: py_max_def)
  from max_from_spec[of key x rest]
  have le0: "key x \<le> key m" and le: "\<forall>y \<in> set rest. key y \<le> key m"
    and pos: "m = x \<or> (\<exists>k < length rest. m = rest ! k \<and> key x < key (rest ! k) \<and>
       (\<forall>j < k. key (rest ! j) < key (rest ! k)))"
    unfolding m by blast+
  have all: "\<forall>j < length xs. key (xs ! j) \<le> key m"
    using le0 le Cons by (auto simp: nth_Cons split: nat.splits)
  from pos show ?thesis
  proof
    assume "m = x"
    then have "0 < length xs \<and> m = xs ! 0" using Cons by simp
    with all show ?thesis by blast
  next
    assume "\<exists>k < length rest. m = rest ! k \<and> key x < key (rest ! k) \<and>
       (\<forall>j < k. key (rest ! j) < key (rest ! k))"
    then obtain k where k: "k < length rest" "m = rest ! k" "key x < key (rest ! k)"
      "\<forall>j < k. key (rest ! j) < key (rest ! k)" by blast
    then have "Suc k < length xs \<and> m = xs ! Suc k \<and> (\<forall>j < Suc k. key (xs ! j) < key m)"
      using Cons by (auto simp: nth_Cons split: nat.splits)
    with all show ?thesis by blast
  qed
qed

lemma py_max_nonempty: "xs \<noteq> [] \<Longrightarrow> \<exists>m. py_max key xs = Inr m"
  by (cases xs) (simp_all add: py_max_def)

section \<open>The elasticity agent never raises\<close>

lemma params_of_cases:
  "params_of c \<in> {\<lparr>base_elasticity = -1.2, volume_adj = 0.1\<rparr>,
                  \<lparr>base_elasticity = -1.1, volume_adj = 0.12\<rparr>,
                  \<lparr>base_elasticity = -1.8, volume_adj = 0.05\<rparr>,
                  \<lparr>base_elasticity = -1.7, volume_adj = 0.08\<rparr>,
                  \<lparr>base_elasticity = -1.5, volume_adj = 0.08\<rparr>}"
proof (cases "elasticity_params (get_or (customer_segment c) ''Enterprise'', get_or (region c) ''EMEA'')")
  case None
  then show ?thesis by (simp add: params_of_def default_params_def)
next
  case (Some p)
  then have "(( get_or (customer_segment c) ''Enterprise'', get_or (region c) ''EMEA''), p) \<in> set
     [((''Enterprise'', ''EMEA''), \<lparr>base_elasticity = -1.2, volume_adj = 0.1\<rparr>),
      ((''Enterprise'', ''Americas''), \<lparr>base_elasticity = -1.1, volume_adj = 0.12\<rparr>),
      ((''SMB'', ''EMEA''), \<lparr>base_elasticity = -1.8, volume_adj = 0.05\<rparr>),
      ((''SMB'', ''Americas''), \<lparr>base_elasticity = -1.7, volume_adj = 0.08\<rparr>)]"
    unfolding elasticity_params_def by (rule map_of_SomeD)
  then have "p \<in> {\<lparr>base_elasticity = -1.2, volume_adj = 0.1\<rparr>,
                  \<lparr>base_elasticity = -1.1, volume_adj = 0.12\<rparr>,
                  \<lparr>base_elasticity = -1.8, volume_adj = 0.05\<rparr>,
                  \<lparr>base_elasticity = -1.7, volume_adj = 0.08\<rparr>}"
    by auto
  with Some show ?thesis by (auto simp: params_of_def)
qed

lemma volume_factor_le_1: "volume_factor c \<le> 1"
  by (simp add: volume_factor_def)

lemma adjusted_elasticity_upper: "adjusted_elasticity c \<le> - (121 / 125)"
  using params_of_cases[of c] volume_factor_le_1[of c]
  unfolding adjusted_elasticity_def by auto

lemma adjusted_elasticity_neg: "adjusted_elasticity c < 0"
  using adjusted_elasticity_upper[of c] by linarith

lemma no_int_solution:
  fixes q :: int
  shows "real_of_int q * 3 \<noteq> - 400" "real_of_int q * 11 \<noteq> - 1500"
    "real_of_int q * 9 \<noteq> - 400" "real_of_int q * 17 \<noteq> - 750" "real_of_int q * 3 \<noteq> - 250"
proof -
  have a: "q * 3 \<noteq> - 400" "q * 11 \<noteq> - 1500" "q * 9 \<noteq> - 400" "q * 17 \<noteq> - 750" "q * 3 \<noteq> - 250"
    by presburger+
  have r: "real_of_int q * real_of_int k = real_of_int m \<Longrightarrow> q * k = m" for k m
    by (metis of_int_eq_iff of_int_mult)
  show "real_of_int q * 3 \<noteq> - 400" using r[of 3 "-400"] a by auto
  show "real_of_int q * 11 \<noteq> - 1500" using r[of 11 "-1500"] a by auto
  show "real_of_int q * 9 \<noteq> - 400" using r[of 9 "-400"] a by auto
  show "real_of_int q * 17 \<noteq> - 750" using r[of 17 "-750"] a by auto
  show "real_of_int q * 3 \<noteq> - 250" using r[of 3 "-250"] a by auto
qed

lemma adjusted_elasticity_not_minus_2: "adjusted_elasticity c \<noteq> - 2"
proof
  assume eq: "adjusted_elasticity c = - 2"
  have vf: "volume_factor c = 1 \<or> volume_factor c = real_of_int (quantity c) / 20"
    by (auto simp: volume_factor_def min_def)
  from params_of_cases[of c] eq vf no_int_solution[of "quantity c"]
  show False
    unfolding adjusted_elasticity_def by auto
qed

lemma suggested_returns: "\<exists>sp. suggested c = Inr sp"
proof -
  have "adjusted_elasticity c + 1 \<noteq> - 1" using adjusted_elasticity_not_minus_2[of c] by linarith
  then have "adjusted_elasticity c < - 1 \<Longrightarrow> 1 - - 1 / (adjusted_elasticity c + 1) \<noteq> 0"
    by (auto simp: field_simps)
  then show ?thesis by (auto simp: suggested_def Let_def)
qed

lemma elasticity_execute_returns: "\<exists>r. elasticity_execute e c = Inr r"
  using suggested_returns[of c] by (auto simp: elasticity_execute_def)

lemma elasticity_execute_fields:
  assumes "elasticity_execute e c = Inr r"
  shows "\<exists>up. price_elasticity r = py_round up (adjusted_elasticity c) 2"
    and "\<exists>up. demand_change_pct r = py_round up (demand_change c) 3"
    and "\<exists>up. new_quantity_estimate r = py_round up (new_quantity c) 1"
    and "\<exists>up. revenue_change_pct r = py_round up (revenue_change c) 3"
  using assms by (auto simp: elasticity_execute_def split: sum.splits)

lemma elasticity_execute_rounds:
  assumes "elasticity_execute e c = Inr r"
  shows "rounds_to (adjusted_elasticity c) 2 (price_elasticity r)"
    and "rounds_to (demand_change c) 3 (demand_change_pct r)"
    and "rounds_to (new_quantity c) 1 (new_quantity_estimate r)"
    and "rounds_to (revenue_change c) 3 (revenue_change_pct r)"
  using elasticity_execute_fields[OF assms] py_round_rounds_to by auto


section \<open>Enrichment and the stages of the pipeline\<close>

lemma find_filter: "find P xs = (case filter P xs of [] \<Rightarrow> None | x # _ \<Rightarrow> Some x)"
  by (induction xs) auto

lemma empty_frame_rows: "empty_frame f \<Longrightarrow> frame_rows f = []"
  by (cases f) auto

lemma add_product_data_lookup:
  "add_product_data e c =
     (case product_lookup e (sku c) of
        None \<Rightarrow> c
      | Some r \<Rightarrow>
          (case cost_lookup e (products_product_id r) of
             None \<Rightarrow> c\<lparr>product_id := Some (products_product_id r),
                        product_family := Some (products_family r)\<rparr>
           | Some x \<Rightarrow> c\<lparr>product_id := Some (products_product_id r),
                          product_family := Some (products_family r),
                          cogs := Some (cogs_cogs x)\<rparr>))"
  unfolding add_product_data_def product_lookup_def cost_lookup_def find_filter Let_def
  by (auto simp: empty_frame_rows split: list.splits)

lemma add_customer_data_lookup:
  "add_customer_data e c =
     (case customer_lookup e (customer_id c) of
        None \<Rightarrow> c
      | Some r \<Rightarrow> c\<lparr>customer_segment := Some (customers_segment r),
                     industry := Some (customers_industry r),
                     region := Some (customers_region r)\<rparr>)"
  unfolding add_customer_data_def customer_lookup_def find_filter
  by (auto simp: empty_frame_rows split: list.splits)

lemma select_prices_context:
  assumes "select_prices e s cid q co ch cu = Inr sel"
  shows "\<exists>c. enrich_context e s cid q co ch cu = Inr c \<and> rules_execute e c = Inr (sel_rules sel) \<and>
           sel_context sel = c\<lparr>rules := Some (sel_rules sel)\<rparr>"
  using assms unfolding select_prices_def Let_def
  by (auto split: sum.splits)


lemma enrich_context_fields:
  "\<exists>c. enrich_context e s cid q co ch cu = Inr c \<and>
     sku c = s \<and> customer_id c = cid \<and> quantity c = q \<and>
     country c = co \<and> channel c = ch \<and> currency c = cu \<and>
     product_family c =
       Some (case product_lookup e s of None \<Rightarrow> ''Widgets'' | Some r \<Rightarrow> products_family r) \<and>
     cogs c =
       Some (case product_lookup e s of
               None \<Rightarrow> 80
             | Some r \<Rightarrow> (case cost_lookup e (products_product_id r) of
                             None \<Rightarrow> 80 | Some x \<Rightarrow> cogs_cogs x)) \<and>
     customer_segment c =
       Some (case customer_lookup e cid of None \<Rightarrow> ''Enterprise'' | Some r \<Rightarrow> customers_segment r) \<and>
     region c =
       Some (case customer_lookup e cid of None \<Rightarrow> ''EMEA'' | Some r \<Rightarrow> customers_region r) \<and>
     industry c = map_option customers_industry (customer_lookup e cid) \<and>
     (\<exists>cg. cogs c = Some cg \<and> competitor_price c = Some (cg * 1.3)) \<and>
     proposed_price c = None \<and> target_price c = None \<and> current_price c = None"
  by (cases "product_lookup e s"; cases "customer_lookup e cid";
      cases "cost_lookup e (products_product_id (the (product_lookup e s)))";
      simp add: enrich_context_def add_product_data_lookup add_customer_data_lookup
        set_defaults_def getitem_def Let_def initial_context_def)

lemma discount_depth_np: "\<exists>dd. discount_depth True p = Inr dd"
proof (cases "p = 0")
  case True
  then have "discount_depth True p = Inr 0" by (simp add: discount_depth_def)
  then show ?thesis by blast
next
  case False
  then have "discount_depth True p = Inr (max 0 ((p * 1.2 - p) / (p * 1.2)))"
    by (simp add: discount_depth_def Let_def)
  then show ?thesis by blast
qed

lemma discount_depth_py:
  assumes "p \<noteq> 0"
  shows "\<exists>dd. discount_depth False p = Inr dd"
proof -
  from assms have "discount_depth False p = Inr (max 0 ((p * 1.2 - p) / (p * 1.2)))"
    by (simp add: discount_depth_def Let_def)
  then show ?thesis by blast
qed

lemma winrate_execute_np_returns: "\<exists>w. winrate_execute e True c = Inr w"
proof -
  obtain dd where "discount_depth True (get_or (proposed_price c) (get_or (target_price c) 100)) = Inr dd"
    using discount_depth_np by blast
  then show ?thesis by (simp add: winrate_execute_def Let_def)
qed

lemma winrate_execute_py_returns:
  assumes "proposed_price c = Some p" "p \<noteq> 0"
  shows "\<exists>w. winrate_execute e False c = Inr w"
proof -
  obtain dd where "discount_depth False p = Inr dd"
    using discount_depth_py[OF assms(2)] by blast
  then show ?thesis using assms(1) by (simp add: winrate_execute_def Let_def get_or_def)
qed

lemma rules_execute_returns:
  assumes "policy_df e = Frame rows"
  shows "\<exists>rr. rules_execute e c = Inr rr"
  using assms by (simp add: rules_execute_def Let_def split: prod.splits)

lemma rules_execute_Inr_frame:
  assumes "rules_execute e c = Inr rr"
  shows "\<exists>rows. policy_df e = Frame rows"
  using assms by (cases "policy_df e") (simp_all add: rules_execute_def Let_def)

lemma rules_execute_rules_update [simp]:
  "rules_execute e (c\<lparr>rules := x\<rparr>) = rules_execute e c"
  by (simp add: rules_execute_def)

lemma get_approval_band_returns:
  assumes "rules_execute e c = Inr rr"
  shows "\<exists>b. get_approval_band e p cg c = Inr b"
  using assms by (simp add: get_approval_band_def Let_def)

lemma score_candidate_returns:
  assumes "cogs c = Some cg"
  shows "\<exists>s. score_candidate e c p = Inr s"
proof -
  let ?cc = "c\<lparr>proposed_price := Some p, target_price := Some p\<rparr>"
  obtain w where "winrate_execute e True ?cc = Inr w" using winrate_execute_np_returns by blast
  moreover obtain r where "elasticity_execute e ?cc = Inr r" using elasticity_execute_returns by blast
  ultimately show ?thesis using assms by (simp add: score_candidate_def Let_def getitem_def)
qed

lemma score_candidate_fields:
  assumes "score_candidate e c p = Inr s"
  shows "c_price s = p \<and>
     (\<exists>w cg. winrate_execute e True (c\<lparr>proposed_price := Some p, target_price := Some p\<rparr>) = Inr w \<and>
        cogs c = Some cg \<and> c_win_probability s = win_probability w \<and>
        c_margin s = p - cg \<and> c_expected_margin s = (p - cg) * win_probability w)"
  using assms unfolding score_candidate_def Let_def getitem_def
  by (auto split: sum.splits option.splits)

lemma candidate_scores_returns:
  assumes "cogs c = Some cg"
  shows "\<exists>cs. candidate_scores e c ps = Inr cs"
proof (induction ps)
  case Nil
  then show ?case by simp
next
  case (Cons p ps)
  obtain s where "score_candidate e c p = Inr s"
    using score_candidate_returns[OF assms] by blast
  with Cons show ?case by auto
qed

lemma candidate_scores_length:
  "candidate_scores e c ps = Inr cs \<Longrightarrow> length cs = length ps"
  by (induction ps arbitrary: cs) (auto split: sum.splits)

lemma candidate_scores_nth:
  "candidate_scores e c ps = Inr cs \<Longrightarrow> i < length ps \<Longrightarrow> score_candidate e c (ps ! i) = Inr (cs ! i)"
proof (induction ps arbitrary: cs i)
  case Nil
  then show ?case by simp
next
  case (Cons p ps)
  then show ?case
    by (cases i) (auto split: sum.splits)
qed

lemma select_stretch_returns: "\<exists>sp. select_stretch scores cl = Inr sp"
proof (cases "filter (\<lambda>x. c_win_probability x > 0.2) scores = []")
  case True
  then show ?thesis by (simp add: select_stretch_def)
next
  case False
  then obtain m where "py_max c_price (filter (\<lambda>x. c_win_probability x > 0.2) scores) = Inr m"
    using py_max_nonempty by blast
  with False show ?thesis by (simp add: select_stretch_def)
qed

lemma select_stretch_spec:
  assumes "select_stretch scores cl = Inr sp"
  shows "if \<exists>x \<in> set scores. c_win_probability x > 0.2
         then (\<exists>x \<in> set scores. c_win_probability x > 0.2 \<and> c_price x = sp) \<and>
              (\<forall>x \<in> set scores. c_win_probability x > 0.2 \<longrightarrow> c_price x \<le> sp)
         else sp = cl"
proof (cases "filter (\<lambda>x. c_win_probability x > 0.2) scores = []")
  case True
  then have "\<not> (\<exists>x \<in> set scores. c_win_probability x > 0.2)"
    by (simp add: filter_empty_conv)
  with True assms show ?thesis by (simp add: select_stretch_def)
next
  case False
  let ?v = "filter (\<lambda>x. c_win_probability x > 0.2) scores"
  from False obtain m where m: "py_max c_price ?v = Inr m" using py_max_nonempty by blast
  with False assms have sp: "sp = c_price m" by (simp add: select_stretch_def)
  from py_max_first[OF m] obtain k where k: "k < length ?v" "m = ?v ! k"
    "\<forall>j < length ?v. c_price (?v ! j) \<le> c_price m" by blast
  have mem: "m \<in> set ?v" unfolding k(2) using k(1) by (rule nth_mem)
  have ub: "\<forall>x \<in> set ?v. c_price x \<le> c_price m"
    using k(3) by (metis in_set_conv_nth)
  have ex: "\<exists>x \<in> set scores. c_win_probability x > 0.2" using mem by auto
  from mem ub sp ex show ?thesis by auto
qed

lemma select_prices_returns:
  assumes "policy_df e = Frame rows"
  shows "\<exists>sel. select_prices e s cid q co ch cu = Inr sel"
proof -
  obtain c where c: "enrich_context e s cid q co ch cu = Inr c" and "\<exists>cg. cogs c = Some cg \<and> competitor_price c = Some (cg * 1.3)"
    using enrich_context_fields[of e s cid q co ch cu] by blast
  then obtain cg where cg: "cogs c = Some cg" by blast
  obtain rr where rr: "rules_execute e c = Inr rr" using rules_execute_returns[OF assms] by blast
  let ?c = "c\<lparr>rules := Some rr\<rparr>"
  let ?g = "linspace (floor_price rr) (ceiling_price rr) 20"
  have "cogs ?c = Some cg" using cg by simp
  then obtain cs where cs: "candidate_scores e ?c ?g = Inr cs"
    using candidate_scores_returns by blast
  then have "length cs = 20" using candidate_scores_length by fastforce
  then have "cs \<noteq> []" by auto
  then obtain t where t: "py_max c_expected_margin cs = Inr t" using py_max_nonempty by blast
  obtain sp where sp: "select_stretch cs (ceiling_price rr) = Inr sp"
    using select_stretch_returns by blast
  from c rr cs t sp show ?thesis by (simp add: select_prices_def Let_def)
qed

section \<open>The rules agent\<close>

lemma rules_execute_lookup:
  assumes "policy_df e = Frame rows"
  shows "rules_execute e c =
     (let cg = get_or (cogs c) 100;
          rg = get_or (region c) ''EMEA'';
          fam = get_or (product_family c) ''Widgets''
      in case policy_lookup e rg fam of
           None \<Rightarrow>
             Inr \<lparr>floor_price = py_round (float_tie e ''floor_price'' [cg, 0.10]) (cg * (1 + 0.10)) 2,
                  ceiling_price = py_round (float_tie e ''ceiling_price'' [cg, 2.0]) (cg * 2.0) 2,
                  min_margin_pct = 0.10, approval_bands = default_bands,
                  policy_source = rg @ ''-'' @ fam\<rparr>
         | Some p \<Rightarrow>
             Inr \<lparr>floor_price =
                    py_round (float_tie e ''floor_price'' [cg, policy_min_margin_pct p])
                      (cg * (1 + policy_min_margin_pct p)) 2,
                  ceiling_price =
                    py_round (float_tie e ''ceiling_price'' [cg, policy_ceiling_pct p])
                      (cg * policy_ceiling_pct p) 2,
                  min_margin_pct = policy_min_margin_pct p,
                  approval_bands = get_or (policy_bands p) default_bands,
                  policy_source = rg @ ''-'' @ fam\<rparr>)"
  using assms unfolding rules_execute_def policy_lookup_def find_filter Let_def
  by (simp split: list.splits)

lemma py_round_decimal: "\<exists>k. py_round up x n = of_int k / 10 ^ n"
  unfolding py_round_def by blast

lemma rules_execute_decimal:
  assumes "rules_execute e c = Inr rr"
  shows "\<exists>a b. floor_price rr = of_int a / 10 ^ 2 \<and> ceiling_price rr = of_int b / 10 ^ 2"
proof -
  obtain rows where f: "policy_df e = Frame rows" using rules_execute_Inr_frame[OF assms] by blast
  from assms obtain u v x y where "floor_price rr = py_round u x 2" "ceiling_price rr = py_round v y 2"
    unfolding rules_execute_lookup[OF f] Let_def
    by (auto split: option.splits)
  then show ?thesis
    using py_round_decimal[of u x 2] py_round_decimal[of v y 2] by auto
qed

lemma py_round_between:
  assumes "lo = of_int a / 10 ^ n" "hi = of_int b / 10 ^ n" "lo \<le> x" "x \<le> hi"
  shows "lo \<le> py_round up x n \<and> py_round up x n \<le> hi"
  using py_round_ge[of a n x up] py_round_le[of x b n up] assms by simp

lemma get_approval_band_classify:
  assumes "rules_execute e c = Inr rr"
  shows "get_approval_band e price cg c =
     Inr (if (if cg > 0
              then float_ge (float_tie e ''margin_pct'' [price, cg, min_margin_pct rr])
                     ((price - cg) / cg) (min_margin_pct rr)
              else 0 \<ge> min_margin_pct rr)
          then (if price \<le> ceiling_price rr then ''APPROVED'' else ''REVIEW'')
          else ''REJECT'')"
  using assms by (simp add: get_approval_band_def Let_def)

section \<open>The stages of the orchestrator\<close>

lemma score_price_fields:
  assumes "score_price e s cid q co ch cu price = Inr r"
  shows "\<exists>c el. enrich_context e s cid q co ch cu = Inr c \<and>
           elasticity_execute e (c\<lparr>proposed_price := Some price\<rparr>) = Inr el \<and>
           elasticity_impact r = demand_change_pct el"
  using assms unfolding score_price_def Let_def
  by (auto split: sum.splits)

lemma score_price_returns:
  assumes "policy_df e = Frame rows" "price \<noteq> 0"
  shows "\<exists>r. score_price e s cid q co ch cu price = Inr r"
proof -
  obtain c where c: "enrich_context e s cid q co ch cu = Inr c"
    and "\<exists>cg. cogs c = Some cg \<and> competitor_price c = Some (cg * 1.3)"
    using enrich_context_fields[of e s cid q co ch cu] by blast
  then obtain cg where cg: "cogs c = Some cg" by blast
  let ?c = "c\<lparr>proposed_price := Some price\<rparr>"
  obtain rr where rr: "rules_execute e ?c = Inr rr" using rules_execute_returns[OF assms(1)] by blast
  have "proposed_price ?c = Some price" by simp
  then obtain w where w: "winrate_execute e False ?c = Inr w"
    using winrate_execute_py_returns[OF _ assms(2)] by blast
  obtain el where el: "elasticity_execute e ?c = Inr el" using elasticity_execute_returns by blast
  obtain b where b: "get_approval_band e price cg ?c = Inr b"
    using get_approval_band_returns[OF rr] by blast
  from c cg rr w el b show ?thesis
    by (simp add: score_price_def Let_def getitem_def)
qed

lemma adjusted_elasticity_proposed [simp]:
  "adjusted_elasticity (c\<lparr>proposed_price := x\<rparr>) = adjusted_elasticity c"
  by (simp add: adjusted_elasticity_def params_of_def volume_factor_def)

lemma select_prices_parts:
  assumes "select_prices e s cid q co ch cu = Inr sel"
  shows "\<exists>c cg. enrich_context e s cid q co ch cu = Inr c \<and> cogs c = Some cg \<and>
           rules_execute e c = Inr (sel_rules sel) \<and>
           sel_context sel = c\<lparr>rules := Some (sel_rules sel)\<rparr> \<and>
           candidate_scores e (sel_context sel)
             (linspace (floor_price (sel_rules sel)) (ceiling_price (sel_rules sel)) 20) =
               Inr (sel_scores sel) \<and>
           py_max c_expected_margin (sel_scores sel) = Inr (sel_target sel) \<and>
           select_stretch (sel_scores sel) (ceiling_price (sel_rules sel)) = Inr (sel_stretch sel)"
proof -
  obtain c where c: "enrich_context e s cid q co ch cu = Inr c"
    and "\<exists>cg. cogs c = Some cg \<and> competitor_price c = Some (cg * 1.3)"
    using enrich_context_fields[of e s cid q co ch cu] by blast
  then obtain cg where cg: "cogs c = Some cg" by blast
  from assms c have "rules_execute e c = Inr (sel_rules sel) \<and>
           sel_context sel = c\<lparr>rules := Some (sel_rules sel)\<rparr> \<and>
           candidate_scores e (sel_context sel)
             (linspace (floor_price (sel_rules sel)) (ceiling_price (sel_rules sel)) 20) =
               Inr (sel_scores sel) \<and>
           py_max c_expected_margin (sel_scores sel) = Inr (sel_target sel) \<and>
           select_stretch (sel_scores sel) (ceiling_price (sel_rules sel)) = Inr (sel_stretch sel)"
    unfolding select_prices_def Let_def
    by (auto split: sum.splits)
  with c cg show ?thesis by blast
qed

lemma recommend_price_parts:
  assumes "recommend_price e s cid q co ch cu = Inr r"
  shows "\<exists>sel. select_prices e s cid q co ch cu = Inr sel \<and>
           (\<exists>up. rec_floor r = py_round up (floor_price (sel_rules sel)) 2) \<and>
           (\<exists>up. target r = py_round up (c_price (sel_target sel)) 2) \<and>
           (\<exists>up. stretch r = py_round up (sel_stretch sel) 2)"
  using assms unfolding recommend_price_def Let_def
  by (auto split: sum.splits)

lemma recommend_price_returns:
  assumes "policy_df e = Frame rows"
  shows "\<exists>r. recommend_price e s cid q co ch cu = Inr r"
proof -
  obtain sel where sel: "select_prices e s cid q co ch cu = Inr sel"
    using select_prices_returns[OF assms] by blast
  from select_prices_parts[OF sel] obtain c cg where c: "cogs c = Some cg"
    "rules_execute e c = Inr (sel_rules sel)" "sel_context sel = c\<lparr>rules := Some (sel_rules sel)\<rparr>"
    by blast
  let ?fc = "(sel_context sel)\<lparr>target_price := Some (c_price (sel_target sel)),
      proposed_price := Some (c_price (sel_target sel)), stretch_price := Some (sel_stretch sel)\<rparr>"
  obtain w where w: "winrate_execute e True ?fc = Inr w" using winrate_execute_np_returns by blast
  obtain el where el: "elasticity_execute e ?fc = Inr el" using elasticity_execute_returns by blast
  have cg: "cogs (sel_context sel) = Some cg" using c by simp
  have "rules_execute e (sel_context sel) = Inr (sel_rules sel)" using c by simp
  then obtain b where b: "get_approval_band e (c_price (sel_target sel)) cg (sel_context sel) = Inr b"
    using get_approval_band_returns by blast
  from sel w el cg b show ?thesis
    by (simp add: recommend_price_def Let_def getitem_def)
qed

lemma scores_grid:
  assumes "candidate_scores e c (linspace lo hi 20) = Inr scores" "cogs c = Some cg"
  shows "length scores = 20"
    and "\<forall>i<20. c_price (scores ! i) = lo + real i * ((hi - lo) / 19)"
    and "\<forall>i<20. c_expected_margin (scores ! i) = (c_price (scores ! i) - cg) * c_win_probability (scores ! i) \<and>
           (\<exists>w. winrate_execute e True
                  (c\<lparr>proposed_price := Some (c_price (scores ! i)),
                     target_price := Some (c_price (scores ! i))\<rparr>) = Inr w \<and>
                c_win_probability (scores ! i) = win_probability w)"
proof -
  show len: "length scores = 20" using candidate_scores_length[OF assms(1)] by simp
  have each: "score_candidate e c (linspace lo hi 20 ! i) = Inr (scores ! i)" if "i < 20" for i
    using candidate_scores_nth[OF assms(1), of i] that by simp
  have price: "c_price (scores ! i) = linspace lo hi 20 ! i" if "i < 20" for i
    using score_candidate_fields[OF each[OF that]] by simp
  show "\<forall>i<20. c_price (scores ! i) = lo + real i * ((hi - lo) / 19)"
    using price by (simp add: linspace_nth)
  show "\<forall>i<20. c_expected_margin (scores ! i) = (c_price (scores ! i) - cg) * c_win_probability (scores ! i) \<and>
           (\<exists>w. winrate_execute e True
                  (c\<lparr>proposed_price := Some (c_price (scores ! i)),
                     target_price := Some (c_price (scores ! i))\<rparr>) = Inr w \<and>
                c_win_probability (scores ! i) = win_probability w)"
  proof (intro allI impI)
    fix i :: nat assume i: "i < 20"
    from score_candidate_fields[OF each[OF i]] assms(2) price[OF i]
    show "c_expected_margin (scores ! i) = (c_price (scores ! i) - cg) * c_win_probability (scores ! i) \<and>
           (\<exists>w. winrate_execute e True
                  (c\<lparr>proposed_price := Some (c_price (scores ! i)),
                     target_price := Some (c_price (scores ! i))\<rparr>) = Inr w \<and>
                c_win_probability (scores ! i) = win_probability w)"
      by auto
  qed
qed


lemma grid_point_round:
  assumes "lo = of_int a / 10 ^ 2" "hi = of_int b / 10 ^ 2"
  shows "py_round u (lo + real i * ((hi - lo) / 19)) 2 = py_round v (lo + real i * ((hi - lo) / 19)) 2"
proof -
  have h: "(10::real) ^ 2 = 100" by simp
  show ?thesis unfolding assms h by (rule grid_no_tie)
qed

lemma recommend_price_rounding:
  assumes "recommend_price e s cid q co ch cu = Inr r"
  shows "\<exists>sel. select_prices e s cid q co ch cu = Inr sel \<and>
           (\<forall>up. target r = py_round up (c_price (sel_target sel)) 2) \<and>
           (\<forall>up. stretch r = py_round up (sel_stretch sel) 2)"
proof -
  from recommend_price_parts[OF assms] obtain sel u v where
    sel: "select_prices e s cid q co ch cu = Inr sel"
    and tr: "target r = py_round u (c_price (sel_target sel)) 2"
    and sr: "stretch r = py_round v (sel_stretch sel) 2" by blast
  from select_prices_parts[OF sel] obtain c cg where
    cg0: "cogs c = Some cg" and ctx: "sel_context sel = c\<lparr>rules := Some (sel_rules sel)\<rparr>"
    and rr: "rules_execute e c = Inr (sel_rules sel)"
    and cs: "candidate_scores e (sel_context sel)
             (linspace (floor_price (sel_rules sel)) (ceiling_price (sel_rules sel)) 20) =
               Inr (sel_scores sel)"
    and mx: "py_max c_expected_margin (sel_scores sel) = Inr (sel_target sel)"
    and st: "select_stretch (sel_scores sel) (ceiling_price (sel_rules sel)) = Inr (sel_stretch sel)"
    by blast
  let ?lo = "floor_price (sel_rules sel)" and ?hi = "ceiling_price (sel_rules sel)"
  from rules_execute_decimal[OF rr] obtain a b where
    lo: "?lo = of_int a / 10 ^ 2" and hi: "?hi = of_int b / 10 ^ 2" by blast
  have cg: "cogs (sel_context sel) = Some cg" using cg0 ctx by simp
  note g = scores_grid[OF cs cg]
  have point: "py_round w (c_price x) 2 = py_round w' (c_price x) 2"
    if "x \<in> set (sel_scores sel)" for x w w'
  proof -
    from that obtain i where i: "i < length (sel_scores sel)" "x = sel_scores sel ! i"
      by (metis in_set_conv_nth)
    then have "i < 20" using g(1) by simp
    then have "c_price x = ?lo + real i * ((?hi - ?lo) / 19)" using g(2) i(2) by simp
    then show ?thesis using grid_point_round[OF lo hi] by simp
  qed
  from py_max_first[OF mx] have "sel_target sel \<in> set (sel_scores sel)" by auto
  then have t: "\<forall>up. target r = py_round up (c_price (sel_target sel)) 2"
    using point tr by metis
  have s: "\<forall>up. stretch r = py_round up (sel_stretch sel) 2"
  proof (cases "\<exists>x \<in> set (sel_scores sel). c_win_probability x > 0.2")
    case True
    with select_stretch_spec[OF st] obtain x where
      "x \<in> set (sel_scores sel)" "c_price x = sel_stretch sel"
      by (auto split: if_splits)
    then show ?thesis using point sr by metis
  next
    case False
    with select_stretch_spec[OF st] have "sel_stretch sel = ?hi"
      by (auto split: if_splits)
    then have eq: "sel_stretch sel = of_int b / 10 ^ 2" using hi by (simp only:)
    show ?thesis unfolding sr eq by (simp only: py_round_exact simp_thms)
  qed
  from sel t s show ?thesis by blast
qed

lemma curve_points_returns: "\<exists>pts. curve_points e c full ps = Inr pts"
proof (induction ps)
  case Nil
  then show ?case by simp
next
  case (Cons p ps)
  obtain w where "winrate_execute e True (c\<lparr>proposed_price := Some p\<rparr>) = Inr w"
    using winrate_execute_np_returns by blast
  with Cons show ?case by auto
qed

lemma curve_points_length: "curve_points e c full ps = Inr pts \<Longrightarrow> length pts = length ps"
  by (induction ps arbitrary: pts) (auto split: sum.splits)

lemma curve_points_nth:
  "curve_points e c full ps = Inr pts \<Longrightarrow> i < length ps \<Longrightarrow>
     (\<exists>up. cp_price (pts ! i) = py_round up (ps ! i) 2) \<and>
     (\<exists>w. winrate_execute e True (c\<lparr>proposed_price := Some (ps ! i)\<rparr>) = Inr w \<and>
          cp_p_win (pts ! i) = win_probability w)"
proof (induction ps arbitrary: pts i)
  case Nil
  then show ?case by simp
next
  case (Cons p ps)
  then show ?case
    by (cases i) (auto split: sum.splits)
qed

lemma wgc_returns: "\<exists>pts. winrate_get_win_curve e c ps = Inr pts"
  unfolding winrate_get_win_curve_def by (rule curve_points_returns)

lemma wgc_length: "winrate_get_win_curve e c ps = Inr pts \<Longrightarrow> length pts = length ps"
  unfolding winrate_get_win_curve_def by (rule curve_points_length)

lemma wgc_nth:
  "winrate_get_win_curve e c ps = Inr pts \<Longrightarrow> i < length ps \<Longrightarrow>
     (\<exists>up. cp_price (pts ! i) = py_round up (ps ! i) 2) \<and>
     (\<exists>w. winrate_execute e True (c\<lparr>proposed_price := Some (ps ! i)\<rparr>) = Inr w \<and>
          cp_p_win (pts ! i) = win_probability w)"
  unfolding winrate_get_win_curve_def by (rule curve_points_nth)

lemma get_win_curve_parts:
  assumes "get_win_curve e s cid q co ch cu = Inr pts"
  shows "\<exists>c rr. enrich_context e s cid q co ch cu = Inr c \<and> rules_execute e c = Inr rr \<and>
           winrate_get_win_curve e c (linspace (floor_price rr) (ceiling_price rr) 15) = Inr pts"
  using assms unfolding get_win_curve_def
  by (auto split: sum.splits)

lemma get_win_curve_returns:
  assumes "policy_df e = Frame rows"
  shows "\<exists>pts. get_win_curve e s cid q co ch cu = Inr pts"
proof -
  obtain c where c: "enrich_context e s cid q co ch cu = Inr c"
    using enrich_context_fields[of e s cid q co ch cu] by blast
  obtain rr where rr: "rules_execute e c = Inr rr" using rules_execute_returns[OF assms] by blast
  obtain pts where "winrate_get_win_curve e c (linspace (floor_price rr) (ceiling_price rr) 15) = Inr pts"
    using wgc_returns by blast
  with c rr show ?thesis by (simp add: get_win_curve_def)
qed

lemma curve_grid:
  assumes "winrate_get_win_curve e c (linspace lo hi 15) = Inr pts"
  shows "length pts = 15"
    and "\<forall>i<15. (\<exists>up. cp_price (pts ! i) = py_round up (lo + real i * ((hi - lo) / 14)) 2) \<and>
           (\<exists>w. winrate_execute e True (c\<lparr>proposed_price := Some (lo + real i * ((hi - lo) / 14))\<rparr>) = Inr w \<and>
                cp_p_win (pts ! i) = win_probability w)"
proof -
  show "length pts = 15" using wgc_length[OF assms] by simp
  show "\<forall>i<15. (\<exists>up. cp_price (pts ! i) = py_round up (lo + real i * ((hi - lo) / 14)) 2) \<and>
           (\<exists>w. winrate_execute e True (c\<lparr>proposed_price := Some (lo + real i * ((hi - lo) / 14))\<rparr>) = Inr w \<and>
                cp_p_win (pts ! i) = win_probability w)"
  proof (intro allI impI)
    fix i :: nat assume i: "i < 15"
    have n: "linspace lo hi 15 ! i = lo + real i * ((hi - lo) / 14)"
      using i by (simp add: linspace_nth)
    from wgc_nth[OF assms, of i] i
    show "(\<exists>up. cp_price (pts ! i) = py_round up (lo + real i * ((hi - lo) / 14)) 2) \<and>
           (\<exists>w. winrate_execute e True (c\<lparr>proposed_price := Some (lo + real i * ((hi - lo) / 14))\<rparr>) = Inr w \<and>
                cp_p_win (pts ! i) = win_probability w)"
      unfolding n by simp
  qed
qed

lemma curve_sorted:
  assumes "length pts = 15"
    and "\<forall>i<15. \<exists>up. cp_price (pts ! i) = py_round up (lo + real i * ((hi - lo) / 14)) 2"
    and "lo \<le> hi" and "lo = of_int a / 10 ^ 2"
  shows "sorted (map cp_price pts)"
proof -
  have "cp_price (pts ! i) \<le> cp_price (pts ! j)" if "i \<le> j" "j < 15" for i j
  proof (cases "i = j")
    case True
    then show ?thesis by simp
  next
    case False
    with that have ij: "i < j" "i < 15" by simp_all
    from assms(2) ij that obtain u v where
      pi: "cp_price (pts ! i) = py_round u (lo + real i * ((hi - lo) / 14)) 2"
      and pj: "cp_price (pts ! j) = py_round v (lo + real j * ((hi - lo) / 14)) 2" by blast
    show ?thesis
    proof (cases "lo = hi")
      case True
      then have "lo + real i * ((hi - lo) / 14) = of_int a / 10 ^ 2"
        "lo + real j * ((hi - lo) / 14) = of_int a / 10 ^ 2"
        using assms(4) by simp_all
      then show ?thesis unfolding pi pj by (simp only: py_round_exact)
    next
      case False
      with assms(3) have "0 < (hi - lo) / 14" by simp
      then have "real i * ((hi - lo) / 14) < real j * ((hi - lo) / 14)"
        using ij(1) by simp
      then have "lo + real i * ((hi - lo) / 14) < lo + real j * ((hi - lo) / 14)" by simp
      then show ?thesis unfolding pi pj by (rule py_round_mono_less)
    qed
  qed
  then show ?thesis using assms(1) by (simp add: sorted_iff_nth_mono)
qed

lemma curve_strict:
  assumes "length pts = 15"
    and "\<forall>i<15. \<exists>up. cp_price (pts ! i) = py_round up (lo + real i * ((hi - lo) / 14)) 2"
    and "hi - lo > 0.14"
  shows "sorted_wrt (<) (map cp_price pts)"
proof -
  define d where "d = (hi - lo) / 14"
  have step: "d > 1 / 100" using assms(3) by (simp add: d_def)
  have "cp_price (pts ! i) < cp_price (pts ! j)" if "i < j" "j < 15" for i j
  proof -
    from that have "i < 15" by simp
    with assms(2) that obtain u v where
      pi: "cp_price (pts ! i) = py_round u (lo + real i * d) 2"
      and pj: "cp_price (pts ! j) = py_round v (lo + real j * d) 2"
      unfolding d_def by blast
    have "real i + 1 \<le> real j" using that by simp
    then have "(real i + 1) * d \<le> real j * d"
      using step by (intro mult_right_mono) auto
    then have "real i * d + d \<le> real j * d"
      by (simp only: distrib_right mult_1)
    with step have "(lo + real i * d) + 1 / 10 ^ 2 < lo + real j * d"
      by simp
    then show ?thesis unfolding pi pj by (rule py_round_strict)
  qed
  then show ?thesis using assms(1) by (simp add: sorted_wrt_iff_nth_less)
qed

section \<open>The example, evaluated\<close>

lemma example_enrich:
  "enrich_context example_env ''SKU-001'' ''C-100'' 10 ''DE'' ''Direct'' ''EUR'' =
     Inr (initial_context ''SKU-001'' ''C-100'' 10 ''DE'' ''Direct'' ''EUR''
          \<lparr>product_id := Some ''P-1'', product_family := Some ''Gadgets'', cogs := Some 50,
           customer_segment := Some ''SMB'', industry := Some ''Retail'', region := Some ''Americas'',
           competitor_price := Some 65\<rparr>)"
  by code_simp

lemma example_rules:
  "rules_execute example_env
       (initial_context ''SKU-001'' ''C-100'' 10 ''DE'' ''Direct'' ''EUR''
          \<lparr>product_id := Some ''P-1'', product_family := Some ''Gadgets'', cogs := Some 50,
           customer_segment := Some ''SMB'', industry := Some ''Retail'', region := Some ''Americas'',
           competitor_price := Some 65\<rparr>) =
     Inr \<lparr>floor_price = 55, ceiling_price = 100, min_margin_pct = 0.10,
          approval_bands = [''APPROVED'', ''REVIEW'', ''REJECT''],
          policy_source = ''Americas-Gadgets''\<rparr>"
  by code_simp

lemma example_recommendation:
  "recommend_price example_env ''SKU-001'' ''C-100'' 10 ''DE'' ''Direct'' ''EUR'' =
       Inr \<lparr>rec_floor = 55, target = 73.95, stretch = 73.95, p_win_at_target = 0.65,
            policy_compliance = ''APPROVED'', confidence_score = ''High''\<rparr>"
  by code_simp

lemma example_bounds:
  assumes "select_prices example_env ''SKU-001'' ''C-100'' 10 ''DE'' ''Direct'' ''EUR'' = Inr sel"
  shows "floor_price (sel_rules sel) = 55" "ceiling_price (sel_rules sel) = 100"
proof -
  from select_prices_parts[OF assms] example_enrich example_rules
  have "sel_rules sel = \<lparr>floor_price = 55, ceiling_price = 100, min_margin_pct = 0.10,
          approval_bands = [''APPROVED'', ''REVIEW'', ''REJECT''],
          policy_source = ''Americas-Gadgets''\<rparr>" by auto
  then show "floor_price (sel_rules sel) = 55" "ceiling_price (sel_rules sel) = 100" by simp_all
qed



section \<open>Claims\<close>




text \<open>
  C2. Whenever \<open>recommend_price\<close> returns: the stretch price is the price of a candidate
  whose win probability exceeds 0.2 and no such candidate has a higher price, or it is the
  ceiling price when there is no such candidate; and when \<open>floor_price \<le> ceiling_price\<close>
  (the bounds being the ones the rules agent returned), the target and stretch prices lie
  between the bounds, before and after their rounding to two decimals (which does not
  depend on the float, neither a grid point nor the ceiling being a tie).
  \<open>recommend_price\<close> returns whenever the policy table is loaded.
\<close>

theorem recommend_price_stretch_bounds:
  "(\<forall>r. recommend_price e s cid q co ch cu = Inr r \<longrightarrow>
      (\<exists>sel. select_prices e s cid q co ch cu = Inr sel \<and>
         (let lo = floor_price (sel_rules sel); hi = ceiling_price (sel_rules sel);
              viable = filter (\<lambda>x. c_win_probability x > 0.2) (sel_scores sel)
          in (\<forall>up. target r = py_round up (c_price (sel_target sel)) 2) \<and>
             (\<forall>up. stretch r = py_round up (sel_stretch sel) 2) \<and>
             (viable \<noteq> [] \<longrightarrow>
                sel_stretch sel \<in> c_price ` set viable \<and>
                (\<forall>x \<in> set viable. c_price x \<le> sel_stretch sel)) \<and>
             (viable = [] \<longrightarrow> sel_stretch sel = hi) \<and>
             (lo \<le> hi \<longrightarrow>
                lo \<le> c_price (sel_target sel) \<and> c_price (sel_target sel) \<le> hi \<and>
                lo \<le> sel_stretch sel \<and> sel_stretch sel \<le> hi \<and>
                lo \<le> target r \<and> target r \<le> hi \<and>
                lo \<le> stretch r \<and> stretch r \<le> hi)))) \<and>
   (\<forall>rows. policy_df e = Frame rows \<longrightarrow> (\<exists>r. recommend_price e s cid q co ch cu = Inr r))"
proof (intro conjI allI impI)
  fix rows assume "policy_df e = Frame rows"
  then show "\<exists>r. recommend_price e s cid q co ch cu = Inr r" by (rule recommend_price_returns)
next
  fix r assume r: "recommend_price e s cid q co ch cu = Inr r"
  from recommend_price_rounding[OF r] obtain sel where
    sel: "select_prices e s cid q co ch cu = Inr sel"
    and tr: "\<forall>up. target r = py_round up (c_price (sel_target sel)) 2"
    and sr: "\<forall>up. stretch r = py_round up (sel_stretch sel) 2" by blast
  from select_prices_parts[OF sel] obtain c cg where
    cg0: "cogs c = Some cg" and ctx: "sel_context sel = c\<lparr>rules := Some (sel_rules sel)\<rparr>"
    and rr: "rules_execute e c = Inr (sel_rules sel)"
    and cs: "candidate_scores e (sel_context sel)
             (linspace (floor_price (sel_rules sel)) (ceiling_price (sel_rules sel)) 20) =
               Inr (sel_scores sel)"
    and mx: "py_max c_expected_margin (sel_scores sel) = Inr (sel_target sel)"
    and st: "select_stretch (sel_scores sel) (ceiling_price (sel_rules sel)) = Inr (sel_stretch sel)"
    by blast
  let ?lo = "floor_price (sel_rules sel)" and ?hi = "ceiling_price (sel_rules sel)"
  let ?scores = "sel_scores sel"
  let ?viable = "filter (\<lambda>x. c_win_probability x > 0.2) ?scores"
  have cg: "cogs (sel_context sel) = Some cg" using cg0 ctx by simp
  note g = scores_grid[OF cs cg]
  note sp = select_stretch_spec[OF st]
  have v1: "sel_stretch sel \<in> c_price ` set ?viable \<and> (\<forall>x \<in> set ?viable. c_price x \<le> sel_stretch sel)"
    if "?viable \<noteq> []"
  proof -
    from that have ex: "\<exists>x \<in> set ?scores. c_win_probability x > 0.2"
      by (simp add: filter_empty_conv)
    with sp obtain x where x: "x \<in> set ?scores" "c_win_probability x > 0.2"
        "c_price x = sel_stretch sel"
      and ub: "\<forall>y \<in> set ?scores. c_win_probability y > 0.2 \<longrightarrow> c_price y \<le> sel_stretch sel"
      by (auto split: if_splits)
    from x have "x \<in> set ?viable" by simp
    then have "c_price x \<in> c_price ` set ?viable" by (rule imageI)
    with x(3) ub show ?thesis by auto
  qed
  have v2: "sel_stretch sel = ?hi" if "?viable = []"
  proof -
    from that have "\<not> (\<exists>x \<in> set ?scores. c_win_probability x > 0.2)"
      by (simp add: filter_empty_conv)
    with sp show ?thesis by (auto split: if_splits)
  qed
  have inrange: "?lo \<le> c_price x \<and> c_price x \<le> ?hi" if "x \<in> set ?scores" "?lo \<le> ?hi" for x
  proof -
    from that(1) obtain i where i: "i < length ?scores" "x = ?scores ! i"
      by (metis in_set_conv_nth)
    then have i20: "i < 20" using g(1) by simp
    have "c_price x = linspace ?lo ?hi 20 ! i"
      using g(2)[rule_format, OF i20] i(2) by (simp add: linspace_nth i20)
    with linspace_bounds[of 20 i ?lo ?hi] i20 that(2) show ?thesis by simp
  qed
  have bounds: "?lo \<le> c_price (sel_target sel) \<and> c_price (sel_target sel) \<le> ?hi \<and>
                ?lo \<le> sel_stretch sel \<and> sel_stretch sel \<le> ?hi \<and>
                ?lo \<le> target r \<and> target r \<le> ?hi \<and>
                ?lo \<le> stretch r \<and> stretch r \<le> ?hi" if le: "?lo \<le> ?hi"
  proof -
    from py_max_first[OF mx] have "sel_target sel \<in> set ?scores" by auto
    then have t: "?lo \<le> c_price (sel_target sel) \<and> c_price (sel_target sel) \<le> ?hi"
      using inrange le by blast
    have s: "?lo \<le> sel_stretch sel \<and> sel_stretch sel \<le> ?hi"
    proof (cases "?viable = []")
      case True
      then show ?thesis using v2 le by simp
    next
      case False
      from v1[OF False] obtain x where "x \<in> set ?viable" "sel_stretch sel = c_price x" by auto
      then have "x \<in> set ?scores" by simp
      with inrange le \<open>sel_stretch sel = c_price x\<close> show ?thesis by simp
    qed
    from rules_execute_decimal[OF rr] obtain a b where
      lo: "?lo = of_int a / 10 ^ 2" and hi: "?hi = of_int b / 10 ^ 2" by blast
    from tr sr have tr': "target r = py_round True (c_price (sel_target sel)) 2"
      and sr': "stretch r = py_round True (sel_stretch sel) 2" by blast+
    from py_round_between[OF lo hi, of "c_price (sel_target sel)" True]
      py_round_between[OF lo hi, of "sel_stretch sel" True] t s
    show ?thesis unfolding tr' sr' by blast
  qed
  have "let lo = ?lo; hi = ?hi; viable = ?viable
          in (\<forall>up. target r = py_round up (c_price (sel_target sel)) 2) \<and>
             (\<forall>up. stretch r = py_round up (sel_stretch sel) 2) \<and>
             (viable \<noteq> [] \<longrightarrow>
                sel_stretch sel \<in> c_price ` set viable \<and>
                (\<forall>x \<in> set viable. c_price x \<le> sel_stretch sel)) \<and>
             (viable = [] \<longrightarrow> sel_stretch sel = hi) \<and>
             (lo \<le> hi \<longrightarrow>
                lo \<le> c_price (sel_target sel) \<and> c_price (sel_target sel) \<le> hi \<and>
                lo \<le> sel_stretch sel \<and> sel_stretch sel \<le> hi \<and>
                lo \<le> target r \<and> target r \<le> hi \<and>
                lo \<le> stretch r \<and> stretch r \<le> hi)"
    unfolding Let_def using tr sr v1 v2 bounds by blast
  with sel show "\<exists>sel. select_prices e s cid q co ch cu = Inr sel \<and>
         (let lo = floor_price (sel_rules sel); hi = ceiling_price (sel_rules sel);
              viable = filter (\<lambda>x. c_win_probability x > 0.2) (sel_scores sel)
          in (\<forall>up. target r = py_round up (c_price (sel_target sel)) 2) \<and>
             (\<forall>up. stretch r = py_round up (sel_stretch sel) 2) \<and>
             (viable \<noteq> [] \<longrightarrow>
                sel_stretch sel \<in> c_price ` set viable \<and>
                (\<forall>x \<in> set viable. c_price x \<le> sel_stretch sel)) \<and>
             (viable = [] \<longrightarrow> sel_stretch sel = hi) \<and>
             (lo \<le> hi \<longrightarrow>
                lo \<le> c_price (sel_target sel) \<and> c_price (sel_target sel) \<le> hi \<and>
                lo \<le> sel_stretch sel \<and> sel_stretch sel \<le> hi \<and>
                lo \<le> target r \<and> target r \<le> hi \<and>
                lo \<le> stretch r \<and> stretch r \<le> hi))"
    by blast
qed

text \<open>
  The example request: some candidate is viable, and target and stretch lie in [55, 100].
\<close>

theorem recommend_price_stretch_bounds_witness:
  "\<exists>sel. recommend_price example_env ''SKU-001'' ''C-100'' 10 ''DE'' ''Direct'' ''EUR'' =
       Inr \<lparr>rec_floor = 55, target = 73.95, stretch = 73.95, p_win_at_target = 0.65,
            policy_compliance = ''APPROVED'', confidence_score = ''High''\<rparr> \<and>
     select_prices example_env ''SKU-001'' ''C-100'' 10 ''DE'' ''Direct'' ''EUR'' = Inr sel \<and>
     floor_price (sel_rules sel) = 55 \<and> ceiling_price (sel_rules sel) = 100 \<and>
     filter (\<lambda>x. c_win_probability x > 0.2) (sel_scores sel) \<noteq> [] \<and>
     sel_stretch sel \<in> c_price ` set (filter (\<lambda>x. c_win_probability x > 0.2) (sel_scores sel)) \<and>
     55 \<le> c_price (sel_target sel) \<and> c_price (sel_target sel) \<le> 100 \<and>
     55 \<le> sel_stretch sel \<and> sel_stretch sel \<le> 100 \<and>
     py_round True (c_price (sel_target sel)) 2 = 73.95 \<and> py_round True (sel_stretch sel) 2 = 73.95"
proof -
  let ?R = "\<lparr>rec_floor = 55, target = 73.95, stretch = 73.95, p_win_at_target = 0.65,
            policy_compliance = ''APPROVED'', confidence_score = ''High''\<rparr>"
  note r = example_recommendation
  from recommend_price_stretch_bounds[of example_env "''SKU-001''" "''C-100''" 10 "''DE''" "''Direct''" "''EUR''"] r
  obtain sel where sel: "select_prices example_env ''SKU-001'' ''C-100'' 10 ''DE'' ''Direct'' ''EUR'' = Inr sel"
    and t: "target ?R = py_round True (c_price (sel_target sel)) 2"
    and s: "stretch ?R = py_round True (sel_stretch sel) 2"
    and v1: "filter (\<lambda>x. c_win_probability x > 0.2) (sel_scores sel) \<noteq> [] \<longrightarrow>
        sel_stretch sel \<in> c_price ` set (filter (\<lambda>x. c_win_probability x > 0.2) (sel_scores sel))"
    and v2: "filter (\<lambda>x. c_win_probability x > 0.2) (sel_scores sel) = [] \<longrightarrow>
        sel_stretch sel = ceiling_price (sel_rules sel)"
    and b: "floor_price (sel_rules sel) \<le> ceiling_price (sel_rules sel) \<longrightarrow>
        floor_price (sel_rules sel) \<le> c_price (sel_target sel) \<and>
        c_price (sel_target sel) \<le> ceiling_price (sel_rules sel) \<and>
        floor_price (sel_rules sel) \<le> sel_stretch sel \<and>
        sel_stretch sel \<le> ceiling_price (sel_rules sel)"
    unfolding Let_def by blast
  note bd = example_bounds[OF sel]
  have ne: "filter (\<lambda>x. c_win_probability x > 0.2) (sel_scores sel) \<noteq> []"
  proof
    assume "filter (\<lambda>x. c_win_probability x > 0.2) (sel_scores sel) = []"
    with v2 bd have "sel_stretch sel = 100" by simp
    then have "py_round True (sel_stretch sel) 2 = 100"
      by (simp add: py_round_def round_nearest_def)
    with s show False by simp
  qed
  from r sel bd ne v1 b t s show ?thesis by auto
qed

text \<open>
  C3 (as amended). When the policy table is loaded, \<open>get_approval_band\<close> returns one of
  \<open>APPROVED\<close>, \<open>REVIEW\<close>, \<open>REJECT\<close> for every price, cost and context. With the margin
  \<open>(price - cogs) / cogs\<close> for \<open>cogs > 0\<close> and \<open>0\<close> for \<open>cogs \<le> 0\<close>, it returns \<open>REJECT\<close> when the
  margin is below the minimum margin, and when the margin is above it, \<open>APPROVED\<close> for a price
  of at most the ceiling price and \<open>REVIEW\<close> for a higher one. When the margin equals the
  minimum margin, it returns one of these two answers: for \<open>cogs \<le> 0\<close> the second, for
  \<open>cogs > 0\<close> the one or the other according to the float quotient. So for \<open>cogs > 0\<close> and a
  margin off the minimum it is the band of the specification. Under the default policy with
  \<open>cogs = 80\<close>, the price 75 is rejected, 200 is for review and 100 is approved.
\<close>

theorem approval_band_bands:
  assumes "policy_df e = Frame rows"
  shows "\<exists>rr b. rules_execute e c = Inr rr \<and> get_approval_band e price cg c = Inr b \<and>
     b \<in> {''APPROVED'', ''REVIEW'', ''REJECT''} \<and>
     (let margin_pct = (if cg > 0 then (price - cg) / cg else 0);
          by_ceiling = (if price \<le> ceiling_price rr then ''APPROVED'' else ''REVIEW'')
      in (margin_pct < min_margin_pct rr \<longrightarrow> b = ''REJECT'') \<and>
         (margin_pct > min_margin_pct rr \<longrightarrow> b = by_ceiling) \<and>
         (margin_pct = min_margin_pct rr \<longrightarrow> b = ''REJECT'' \<or> b = by_ceiling) \<and>
         (margin_pct = min_margin_pct rr \<and> cg \<le> 0 \<longrightarrow> b = by_ceiling)) \<and>
     (cg > 0 \<and> (price - cg) / cg \<noteq> min_margin_pct rr \<longrightarrow> b = spec_approval_band price cg rr) \<and>
     (policy_lookup e (get_or (region c) ''EMEA'') (get_or (product_family c) ''Widgets'') = None \<and>
      cogs c = Some 80 \<longrightarrow>
        get_approval_band e 75 80 c = Inr ''REJECT'' \<and>
        get_approval_band e 200 80 c = Inr ''REVIEW'' \<and>
        get_approval_band e 100 80 c = Inr ''APPROVED'')"
proof -
  obtain rr where rr: "rules_execute e c = Inr rr"
    using rules_execute_returns[OF assms] by blast
  note cl = get_approval_band_classify[OF rr]
  define b where "b = (if (if cg > 0
              then float_ge (float_tie e ''margin_pct'' [price, cg, min_margin_pct rr])
                     ((price - cg) / cg) (min_margin_pct rr)
              else 0 \<ge> min_margin_pct rr)
          then (if price \<le> ceiling_price rr then ''APPROVED'' else ''REVIEW'')
          else ''REJECT'')"
  have gb: "get_approval_band e price cg c = Inr b" unfolding b_def by (rule cl)
  have mem: "b \<in> {''APPROVED'', ''REVIEW'', ''REJECT''}" unfolding b_def by simp
  have cases: "let margin_pct = (if cg > 0 then (price - cg) / cg else 0);
          by_ceiling = (if price \<le> ceiling_price rr then ''APPROVED'' else ''REVIEW'')
      in (margin_pct < min_margin_pct rr \<longrightarrow> b = ''REJECT'') \<and>
         (margin_pct > min_margin_pct rr \<longrightarrow> b = by_ceiling) \<and>
         (margin_pct = min_margin_pct rr \<longrightarrow> b = ''REJECT'' \<or> b = by_ceiling) \<and>
         (margin_pct = min_margin_pct rr \<and> cg \<le> 0 \<longrightarrow> b = by_ceiling)"
    unfolding Let_def b_def float_ge_def by (cases "cg > 0") auto
  have sp: "b = spec_approval_band price cg rr"
    if "cg > 0 \<and> (price - cg) / cg \<noteq> min_margin_pct rr"
    using that unfolding b_def float_ge_def spec_approval_band_def Let_def by auto
  have ex: "get_approval_band e 75 80 c = Inr ''REJECT'' \<and>
        get_approval_band e 200 80 c = Inr ''REVIEW'' \<and>
        get_approval_band e 100 80 c = Inr ''APPROVED''"
    if "policy_lookup e (get_or (region c) ''EMEA'') (get_or (product_family c) ''Widgets'') = None \<and>
      cogs c = Some 80"
  proof -
    have r: "py_round up (80 * 2.0) 2 = 160" for up
      by (simp add: py_round_def round_nearest_def Let_def)
    from that rr have "min_margin_pct rr = 0.10" "ceiling_price rr = 160"
      using r by (auto simp: rules_execute_lookup[OF assms] Let_def get_or_def)
    then show ?thesis by (simp add: cl float_ge_def)
  qed
  from rr gb mem cases sp ex show ?thesis by blast
qed

text \<open>
  The example context, under the default policy, and a price whose margin is off the
  minimum.
\<close>

theorem approval_band_bands_witness:
  "get_approval_band example_env 75 80 example_context = Inr ''REJECT'' \<and>
   get_approval_band example_env 200 80 example_context = Inr ''REVIEW'' \<and>
   get_approval_band example_env 100 80 example_context = Inr ''APPROVED'' \<and>
   (\<exists>rr. rules_execute example_env example_context = Inr rr \<and>
      min_margin_pct rr < (120 - 80) / 80 \<and>
      get_approval_band example_env 120 80 example_context = Inr (spec_approval_band 120 80 rr))"
proof -
  have f: "policy_df example_env = Frame []" by (simp add: example_env_def)
  have l: "policy_lookup example_env (get_or (region example_context) ''EMEA'')
      (get_or (product_family example_context) ''Widgets'') = None"
    by (simp add: policy_lookup_def example_env_def)
  have c: "cogs example_context = Some 80"
    by (simp add: example_context_def)
  from approval_band_bands[OF f, of example_context 120 80] obtain rr b where
    rr: "rules_execute example_env example_context = Inr rr"
    and b: "get_approval_band example_env 120 80 example_context = Inr b"
    and sp: "(0::real) < 80 \<and> (120 - 80) / 80 \<noteq> min_margin_pct rr \<longrightarrow> b = spec_approval_band 120 80 rr"
    and ex: "policy_lookup example_env (get_or (region example_context) ''EMEA'')
      (get_or (product_family example_context) ''Widgets'') = None \<and>
      cogs example_context = Some 80 \<longrightarrow>
        get_approval_band example_env 75 80 example_context = Inr ''REJECT'' \<and>
        get_approval_band example_env 200 80 example_context = Inr ''REVIEW'' \<and>
        get_approval_band example_env 100 80 example_context = Inr ''APPROVED''"
    by blast
  have mm: "min_margin_pct rr = 0.10"
    using rr l by (auto simp: rules_execute_lookup[OF f] Let_def)
  then have lt: "min_margin_pct rr < (120 - 80) / 80" by simp
  with sp b have "get_approval_band example_env 120 80 example_context = Inr (spec_approval_band 120 80 rr)"
    by simp
  with ex l c rr lt show ?thesis by blast
qed

text \<open>
  The claim as stated holds for every cost. For the cost -10 and the price -20 the margin
  \<open>(price - cogs) / cogs\<close> is 1 and the price is at the ceiling, so the specification approves,
  while the code takes the margin 0 and rejects.
\<close>

theorem approval_band_negative_cogs_counterexample:
  "get_approval_band example_env (- 20) (- 10) negative_cost_context = Inr ''REJECT'' \<and>
   rules_execute example_env negative_cost_context =
     Inr \<lparr>floor_price = - 11, ceiling_price = - 20, min_margin_pct = 0.10,
          approval_bands = [''APPROVED'', ''REVIEW'', ''REJECT''],
          policy_source = ''EMEA-Widgets''\<rparr> \<and>
   spec_approval_band (- 20) (- 10)
     \<lparr>floor_price = - 11, ceiling_price = - 20, min_margin_pct = 0.10,
      approval_bands = [''APPROVED'', ''REVIEW'', ''REJECT''],
      policy_source = ''EMEA-Widgets''\<rparr> = ''APPROVED''"
  by (simp add: get_approval_band_def rules_execute_def negative_cost_context_def
      example_context_def initial_context_def spec_approval_band_def
      example_env_def get_or_def default_bands_def py_round_def round_nearest_def float_ge_def Let_def)

text \<open>
  C4 (as amended). When the policy table is loaded, the rules agent returns as
  \<open>floor_price\<close> the product \<open>cogs * (1 + min_margin_pct)\<close> and as \<open>ceiling_price\<close> the product
  \<open>cogs * ceiling_pct\<close>, each rounded to two decimals (a multiple of 0.01 within 0.005 of the
  product; which one, when the product lies halfway between two, depends on the float),
  with the margin and the factor of the first policy row for the region and product family
  of the context, and with the default policy (minimum margin 0.10, ceiling factor 2.0,
  bands \<open>APPROVED\<close>, \<open>REVIEW\<close>, \<open>REJECT\<close>) when no row matches; \<open>cogs = 80\<close> under the default
  policy gives the floor 88 and the ceiling 160.
\<close>

theorem rules_execute_bounds:
  assumes "policy_df e = Frame rows"
  shows "\<exists>rr. rules_execute e c = Inr rr \<and>
     (case policy_lookup e (get_or (region c) ''EMEA'') (get_or (product_family c) ''Widgets'') of
        None \<Rightarrow>
          min_margin_pct rr = 0.10 \<and>
          approval_bands rr = [''APPROVED'', ''REVIEW'', ''REJECT''] \<and>
          rounds_to (get_or (cogs c) 100 * (1 + 0.10)) 2 (floor_price rr) \<and>
          rounds_to (get_or (cogs c) 100 * 2.0) 2 (ceiling_price rr) \<and>
          (cogs c = Some 80 \<longrightarrow> floor_price rr = 88 \<and> ceiling_price rr = 160)
      | Some p \<Rightarrow>
          min_margin_pct rr = policy_min_margin_pct p \<and>
          rounds_to (get_or (cogs c) 100 * (1 + policy_min_margin_pct p)) 2 (floor_price rr) \<and>
          rounds_to (get_or (cogs c) 100 * policy_ceiling_pct p) 2 (ceiling_price rr))"
proof (cases "policy_lookup e (get_or (region c) ''EMEA'') (get_or (product_family c) ''Widgets'')")
  case None
  have "py_round up (80 * (1 + 0.10)) 2 = 88" "py_round up (80 * 2.0) 2 = 160" for up
    by (simp_all add: py_round_def round_nearest_def Let_def)
  with None show ?thesis
    by (simp add: rules_execute_lookup[OF assms] Let_def default_bands_def get_or_def
        py_round_rounds_to)
next
  case (Some p)
  then show ?thesis
    by (simp add: rules_execute_lookup[OF assms] Let_def py_round_rounds_to)
qed

text \<open>
  The example context: no policy row, \<open>cogs = 80\<close>.
\<close>

theorem rules_execute_bounds_witness:
  "\<exists>rr. rules_execute example_env example_context = Inr rr \<and> min_margin_pct rr = 0.10 \<and>
      approval_bands rr = [''APPROVED'', ''REVIEW'', ''REJECT''] \<and>
      floor_price rr = 88 \<and> ceiling_price rr = 160"
proof -
  have f: "policy_df example_env = Frame []" by (simp add: example_env_def)
  have l: "policy_lookup example_env (get_or (region example_context) ''EMEA'')
      (get_or (product_family example_context) ''Widgets'') = None"
    by (simp add: policy_lookup_def example_env_def)
  have c: "cogs example_context = Some 80"
    by (simp add: example_context_def)
  from rules_execute_bounds[OF f, of example_context] show ?thesis
    by (auto simp: l c)
qed

text \<open>
  The claim as stated has \<open>floor_price = cogs * (1 + min_margin_pct)\<close>. For \<open>cogs = 33.33\<close>
  the product is 36.663 and the agent returns 36.66.
\<close>

theorem rules_execute_rounds_counterexample:
  "rules_execute example_env odd_cost_context =
     Inr \<lparr>floor_price = 36.66, ceiling_price = 66.66, min_margin_pct = 0.10,
          approval_bands = [''APPROVED'', ''REVIEW'', ''REJECT''],
          policy_source = ''EMEA-Widgets''\<rparr> \<and>
   cogs odd_cost_context = Some 33.33 \<and>
   (36.66 :: real) \<noteq> 33.33 * (1 + 0.10)"
  by (simp add: rules_execute_def odd_cost_context_def example_context_def initial_context_def
      example_env_def get_or_def default_bands_def py_round_def round_nearest_def Let_def)

text \<open>
  C5 (as amended). The elasticity agent always returns. It computes
  \<open>adjusted_elasticity = base_elasticity * (1 - min(1, quantity / 20) * volume_adj)\<close> with the
  parameters of the segment and region (base elasticity -1.5 and volume adjustment 0.08 when
  the pair is not in the table), \<open>price_change_pct = (proposed - current) / current\<close> (0 when
  \<open>current \<le> 0\<close>), \<open>demand_change_pct = adjusted_elasticity * price_change_pct\<close> and
  \<open>new_quantity = max(1, quantity * (1 + demand_change_pct))\<close>, and returns them rounded:
  \<open>price_elasticity\<close> to two decimals, \<open>demand_change_pct\<close> to three and
  \<open>new_quantity_estimate\<close> to one (each a multiple of the unit of its last digit within half
  a unit of the computed value; which one, when the value lies halfway between two, depends
  on the float). For Enterprise/EMEA at quantity 10 the adjusted elasticity is -1.14,
  computed and returned, and a price increase of 10% gives the demand change -0.114,
  computed and returned.
\<close>

theorem elasticity_execute_formulas:
  "\<exists>r. elasticity_execute e c = Inr r \<and>
     (let p = (case elasticity_params
                      (get_or (customer_segment c) ''Enterprise'', get_or (region c) ''EMEA'') of
                 Some x \<Rightarrow> x
               | None \<Rightarrow> \<lparr>base_elasticity = - 1.5, volume_adj = 0.08\<rparr>);
          cur = current_price_of c;
          prop = proposed_price_of c;
          q = real_of_int (quantity c);
          adj = base_elasticity p * (1 - min 1 (q / 20) * volume_adj p);
          pcp = (if cur > 0 then (prop - cur) / cur else 0);
          dcp = adj * pcp;
          nq = max 1 (q * (1 + dcp))
      in adjusted_elasticity c = adj \<and> price_change_pct c = pcp \<and>
         demand_change c = dcp \<and> new_quantity c = nq \<and>
         rounds_to adj 2 (price_elasticity r) \<and>
         rounds_to dcp 3 (demand_change_pct r) \<and>
         rounds_to nq 1 (new_quantity_estimate r)) \<and>
     (customer_segment c = Some ''Enterprise'' \<and> region c = Some ''EMEA'' \<and> quantity c = 10 \<longrightarrow>
        adjusted_elasticity c = - 1.14 \<and> price_elasticity r = - 1.14 \<and>
        (current_price_of c > 0 \<and> proposed_price_of c = current_price_of c * 1.1 \<longrightarrow>
           demand_change c = - 0.114 \<and> demand_change_pct r = - 0.114))"
proof -
  obtain r where r: "elasticity_execute e c = Inr r"
    using elasticity_execute_returns by blast
  note f = elasticity_execute_rounds[OF r]
  note g = elasticity_execute_fields[OF r]
  have formulas: "let p = (case elasticity_params
                      (get_or (customer_segment c) ''Enterprise'', get_or (region c) ''EMEA'') of
                 Some x \<Rightarrow> x
               | None \<Rightarrow> \<lparr>base_elasticity = - 1.5, volume_adj = 0.08\<rparr>);
          cur = current_price_of c;
          prop = proposed_price_of c;
          q = real_of_int (quantity c);
          adj = base_elasticity p * (1 - min 1 (q / 20) * volume_adj p);
          pcp = (if cur > 0 then (prop - cur) / cur else 0);
          dcp = adj * pcp;
          nq = max 1 (q * (1 + dcp))
      in adjusted_elasticity c = adj \<and> price_change_pct c = pcp \<and>
         demand_change c = dcp \<and> new_quantity c = nq \<and>
         rounds_to adj 2 (price_elasticity r) \<and>
         rounds_to dcp 3 (demand_change_pct r) \<and>
         rounds_to nq 1 (new_quantity_estimate r)"
    using f unfolding Let_def adjusted_elasticity_def price_change_pct_def demand_change_def
      new_quantity_def params_of_def default_params_def volume_factor_def
    by simp
  have example: "adjusted_elasticity c = - 1.14 \<and> price_elasticity r = - 1.14 \<and>
        (current_price_of c > 0 \<and> proposed_price_of c = current_price_of c * 1.1 \<longrightarrow>
           demand_change c = - 0.114 \<and> demand_change_pct r = - 0.114)"
    if seg: "customer_segment c = Some ''Enterprise''" and reg: "region c = Some ''EMEA''"
      and q: "quantity c = 10"
  proof -
    have p: "params_of c = \<lparr>base_elasticity = - 1.2, volume_adj = 0.1\<rparr>"
      by (simp add: params_of_def elasticity_params_def seg reg get_or_def)
    have adj: "adjusted_elasticity c = - 1.14"
      by (simp add: adjusted_elasticity_def p volume_factor_def q)
    have r2: "py_round up (- 1.14) 2 = - 1.14" "py_round up (- 0.114) 3 = - 0.114" for up
      by (simp_all add: py_round_def round_nearest_def Let_def)
    have dc: "demand_change c = - 0.114"
      if "current_price_of c > 0" "proposed_price_of c = current_price_of c * 1.1"
    proof -
      have "price_change_pct c = 1 / 10"
        using that by (simp add: price_change_pct_def field_simps)
      then show ?thesis by (simp add: demand_change_def adj)
    qed
    show ?thesis using adj dc r2 g(1,2) by auto
  qed
  from r formulas example show ?thesis by blast
qed

text \<open>
  The example context: Enterprise/EMEA, quantity 10, the price going from 100 to 110.
\<close>

theorem elasticity_execute_formulas_witness:
  "\<exists>r. elasticity_execute example_env example_context = Inr r \<and>
      adjusted_elasticity example_context = - 1.14 \<and> price_elasticity r = - 1.14 \<and>
      demand_change example_context = - 0.114 \<and> demand_change_pct r = - 0.114"
proof -
  have a: "customer_segment example_context = Some ''Enterprise'' \<and>
      region example_context = Some ''EMEA'' \<and> quantity example_context = 10"
    by (simp add: example_context_def initial_context_def)
  have b: "current_price_of example_context > 0 \<and>
      proposed_price_of example_context = current_price_of example_context * 1.1"
    by (simp add: current_price_of_def proposed_price_of_def get_or_def
        example_context_def initial_context_def)
  from elasticity_execute_formulas[of example_env example_context] a b show ?thesis
    by blast
qed

text \<open>
  The claim as stated has the agent yield the value of the formula. For Enterprise/EMEA at
  quantity 7 the formula gives -1.158 and the agent returns the elasticity -1.16.
\<close>

theorem elasticity_execute_rounds_counterexample:
  "elasticity_execute example_env seven_units_context =
     Inr \<lparr>price_elasticity = - 1.16, demand_change_pct = - 0.116,
          new_quantity_estimate = 6.2, revenue_change_pct = - 0.027,
          suggested_price = - 15.01, elasticity_segment = ''Enterprise-EMEA''\<rparr> \<and>
   customer_segment seven_units_context = Some ''Enterprise'' \<and>
   region seven_units_context = Some ''EMEA'' \<and>
   quantity seven_units_context = 7 \<and>
   elasticity_params (''Enterprise'', ''EMEA'') = Some \<lparr>base_elasticity = - 1.2, volume_adj = 0.1\<rparr> \<and>
   (- 1.16 :: real) \<noteq> - 1.2 * (1 - min 1 (7 / 20) * 0.1)"
  by code_simp

text \<open>
  C6. For every context (whatever its quantity, so in particular for \<open>quantity \<ge> 1\<close>, and for
  every entry of the elasticity table as for the default parameters) the adjusted elasticity
  is strictly negative, and so is the \<open>price_elasticity\<close> the agent returns; the agent always
  returns; and when the price change is positive, the demand change is at most zero, before
  and after its rounding to three decimals.
\<close>

theorem elasticity_sign_convention:
  "adjusted_elasticity c < 0 \<and>
   (\<exists>r. elasticity_execute e c = Inr r \<and> price_elasticity r < 0 \<and>
      (0 < price_change_pct c \<longrightarrow> demand_change c \<le> 0 \<and> demand_change_pct r \<le> 0))"
proof -
  obtain r where r: "elasticity_execute e c = Inr r"
    using elasticity_execute_returns by blast
  have neg: "adjusted_elasticity c < 0" by (rule adjusted_elasticity_neg)
  from elasticity_execute_fields[OF r] obtain u v where
    pr: "price_elasticity r = py_round u (adjusted_elasticity c) 2"
    and dr: "demand_change_pct r = py_round v (demand_change c) 3" by blast
  have "adjusted_elasticity c \<le> of_int (- 1) / 10 ^ 2"
    using adjusted_elasticity_upper[of c] by simp
  then have "py_round u (adjusted_elasticity c) 2 \<le> of_int (- 1) / 10 ^ 2"
    by (rule py_round_le)
  then have pe: "price_elasticity r < 0" unfolding pr by simp
  have dc: "demand_change c \<le> 0 \<and> demand_change_pct r \<le> 0" if "0 < price_change_pct c"
  proof -
    have "demand_change c \<le> 0"
      unfolding demand_change_def using neg that by (simp add: mult_le_0_iff)
    then show ?thesis
      unfolding dr using py_round_nonpos by simp
  qed
  from r neg pe dc show ?thesis by blast
qed

theorem elasticity_sign_convention_witness:
  "1 \<le> quantity example_context \<and> 0 < price_change_pct example_context \<and>
   adjusted_elasticity example_context < 0 \<and> demand_change example_context \<le> 0 \<and>
   (\<exists>r. elasticity_execute example_env example_context = Inr r \<and> price_elasticity r < 0 \<and>
      demand_change_pct r \<le> 0)"
proof -
  have q: "1 \<le> quantity example_context"
    by (simp add: example_context_def initial_context_def)
  have p: "price_change_pct example_context = 1 / 10"
    by (simp add: price_change_pct_def current_price_of_def proposed_price_of_def get_or_def
        example_context_def initial_context_def)
  then have "0 < price_change_pct example_context" by simp
  with q elasticity_sign_convention[of example_context example_env] show ?thesis by auto
qed

text \<open>
  C7 (as amended). Whenever \<open>get_win_curve\<close> returns, the curve has 15 points, in the order
  of the grid of 15 equally spaced prices from the floor to the ceiling that the rules agent
  returned: point \<open>i\<close> has the price \<open>floor + i * (ceiling - floor) / 14\<close> rounded to two
  decimals (a multiple of 0.01 within 0.005 of it; which one, when it lies halfway between
  two, depends on the float), and the win probability that the win-rate agent gives for the
  context with that (unrounded) price proposed, each point by its own call. The first price
  is the floor and the last the ceiling. The prices ascend when \<open>floor \<le> ceiling\<close>, and
  strictly when \<open>ceiling - floor > 0.14\<close>. \<open>get_win_curve\<close> returns whenever the policy table
  is loaded.
\<close>

theorem get_win_curve_points:
  "(\<forall>pts. get_win_curve e s cid q co ch cu = Inr pts \<longrightarrow>
      (\<exists>c rr. enrich_context e s cid q co ch cu = Inr c \<and> rules_execute e c = Inr rr \<and>
         (let lo = floor_price rr; hi = ceiling_price rr
          in length pts = 15 \<and>
             (\<forall>i<15. rounds_to (lo + real i * ((hi - lo) / 14)) 2 (cp_price (pts ! i)) \<and>
                (\<exists>w. winrate_execute e True
                        (c\<lparr>proposed_price := Some (lo + real i * ((hi - lo) / 14))\<rparr>) = Inr w \<and>
                     cp_p_win (pts ! i) = win_probability w)) \<and>
             cp_price (pts ! 0) = lo \<and> cp_price (pts ! 14) = hi \<and>
             (lo \<le> hi \<longrightarrow> sorted (map cp_price pts)) \<and>
             (hi - lo > 0.14 \<longrightarrow> sorted_wrt (<) (map cp_price pts))))) \<and>
   (\<forall>rows. policy_df e = Frame rows \<longrightarrow> (\<exists>pts. get_win_curve e s cid q co ch cu = Inr pts))"
proof (intro conjI allI impI)
  fix rows assume "policy_df e = Frame rows"
  then show "\<exists>pts. get_win_curve e s cid q co ch cu = Inr pts" by (rule get_win_curve_returns)
next
  fix pts assume pts: "get_win_curve e s cid q co ch cu = Inr pts"
  from get_win_curve_parts[OF pts] obtain c rr where
    c: "enrich_context e s cid q co ch cu = Inr c" and rr: "rules_execute e c = Inr rr"
    and w: "winrate_get_win_curve e c (linspace (floor_price rr) (ceiling_price rr) 15) = Inr pts"
    by blast
  let ?lo = "floor_price rr" and ?hi = "ceiling_price rr"
  note g = curve_grid[OF w]
  have prices: "\<forall>i<15. \<exists>up. cp_price (pts ! i) = py_round up (?lo + real i * ((?hi - ?lo) / 14)) 2"
    using g(2) by blast
  have rounded: "\<forall>i<15. rounds_to (?lo + real i * ((?hi - ?lo) / 14)) 2 (cp_price (pts ! i)) \<and>
                (\<exists>w. winrate_execute e True
                        (c\<lparr>proposed_price := Some (?lo + real i * ((?hi - ?lo) / 14))\<rparr>) = Inr w \<and>
                     cp_p_win (pts ! i) = win_probability w)"
    using g(2) py_round_rounds_to by metis
  from rules_execute_decimal[OF rr] obtain a b where
    lo: "?lo = of_int a / 10 ^ 2" and hi: "?hi = of_int b / 10 ^ 2" by blast
  from prices[rule_format, of 0] obtain u where "cp_price (pts ! 0) = py_round u ?lo 2" by auto
  then have first: "cp_price (pts ! 0) = ?lo"
    using lo by (simp only: py_round_exact)
  have "?lo + real (14::nat) * ((?hi - ?lo) / 14) = ?hi" by (simp add: field_simps)
  with prices[rule_format, of 14] obtain v where "cp_price (pts ! 14) = py_round v ?hi 2" by auto
  then have last: "cp_price (pts ! 14) = ?hi"
    using hi by (simp only: py_round_exact)
  have asc: "sorted (map cp_price pts)" if "?lo \<le> ?hi"
    using curve_sorted[OF g(1) prices that lo] .
  have strict: "sorted_wrt (<) (map cp_price pts)" if "?hi - ?lo > 0.14"
    using curve_strict[OF g(1) prices that] .
  have "let lo = ?lo; hi = ?hi
          in length pts = 15 \<and>
             (\<forall>i<15. rounds_to (lo + real i * ((hi - lo) / 14)) 2 (cp_price (pts ! i)) \<and>
                (\<exists>w. winrate_execute e True
                        (c\<lparr>proposed_price := Some (lo + real i * ((hi - lo) / 14))\<rparr>) = Inr w \<and>
                     cp_p_win (pts ! i) = win_probability w)) \<and>
             cp_price (pts ! 0) = lo \<and> cp_price (pts ! 14) = hi \<and>
             (lo \<le> hi \<longrightarrow> sorted (map cp_price pts)) \<and>
             (hi - lo > 0.14 \<longrightarrow> sorted_wrt (<) (map cp_price pts))"
    unfolding Let_def using g(1) rounded first last asc strict by blast
  with c rr show "\<exists>c rr. enrich_context e s cid q co ch cu = Inr c \<and> rules_execute e c = Inr rr \<and>
         (let lo = floor_price rr; hi = ceiling_price rr
          in length pts = 15 \<and>
             (\<forall>i<15. rounds_to (lo + real i * ((hi - lo) / 14)) 2 (cp_price (pts ! i)) \<and>
                (\<exists>w. winrate_execute e True
                        (c\<lparr>proposed_price := Some (lo + real i * ((hi - lo) / 14))\<rparr>) = Inr w \<and>
                     cp_p_win (pts ! i) = win_probability w)) \<and>
             cp_price (pts ! 0) = lo \<and> cp_price (pts ! 14) = hi \<and>
             (lo \<le> hi \<longrightarrow> sorted (map cp_price pts)) \<and>
             (hi - lo > 0.14 \<longrightarrow> sorted_wrt (<) (map cp_price pts)))"
    by blast
qed

text \<open>
  The example request: 15 points from 55 to 100, strictly ascending.
\<close>

theorem get_win_curve_points_witness:
  "\<exists>pts. get_win_curve example_env ''SKU-001'' ''C-100'' 10 ''DE'' ''Direct'' ''EUR'' = Inr pts \<and>
     length pts = 15 \<and> cp_price (pts ! 0) = 55 \<and> cp_price (pts ! 14) = 100 \<and>
     sorted (map cp_price pts) \<and> sorted_wrt (<) (map cp_price pts)"
proof -
  have f: "policy_df example_env = Frame []" by (simp add: example_env_def)
  note th = get_win_curve_points[of example_env "''SKU-001''" "''C-100''" 10 "''DE''" "''Direct''" "''EUR''"]
  from th f obtain pts where
    pts: "get_win_curve example_env ''SKU-001'' ''C-100'' 10 ''DE'' ''Direct'' ''EUR'' = Inr pts"
    by blast
  with th obtain c rr where
    c: "enrich_context example_env ''SKU-001'' ''C-100'' 10 ''DE'' ''Direct'' ''EUR'' = Inr c"
    and rr: "rules_execute example_env c = Inr rr"
    and len: "length pts = 15"
    and a: "cp_price (pts ! 0) = floor_price rr" and b: "cp_price (pts ! 14) = ceiling_price rr"
    and srt: "floor_price rr \<le> ceiling_price rr \<longrightarrow> sorted (map cp_price pts)"
    and strict: "ceiling_price rr - floor_price rr > 0.14 \<longrightarrow> sorted_wrt (<) (map cp_price pts)"
    unfolding Let_def by blast
  from c rr example_enrich example_rules
  have "rr = \<lparr>floor_price = 55, ceiling_price = 100, min_margin_pct = 0.10,
          approval_bands = [''APPROVED'', ''REVIEW'', ''REJECT''],
          policy_source = ''Americas-Gadgets''\<rparr>" by auto
  then have lo: "floor_price rr = 55" and hi: "ceiling_price rr = 100" by simp_all
  from pts len a b srt strict lo hi show ?thesis by auto
qed

text \<open>
  The claim as stated has the prices strictly ascend for every request. For a product that
  costs 0.10 the bounds are 0.11 and 0.20, and the second and third point both have the
  price 0.12.
\<close>

theorem get_win_curve_duplicates_counterexample:
  "map_sum id (take 3 \<circ> map cp_price)
     (get_win_curve cheap_env ''SKU-001'' ''C-100'' 10 ''DE'' ''Direct'' ''EUR'') =
     Inr [0.11, 0.12, 0.12] \<and>
   map_sum id (sorted_wrt (<) \<circ> map cp_price)
     (get_win_curve cheap_env ''SKU-001'' ''C-100'' 10 ''DE'' ''Direct'' ''EUR'') = Inr False"
  by code_simp

text \<open>
  C8. Context enrichment never raises on a missing product, customer or cost row: for every
  request it returns a context, in which each of \<open>product_family\<close>, \<open>cogs\<close>,
  \<open>customer_segment\<close> and \<open>region\<close> is the value found by the lookup when there is one and
  the default (\<open>Widgets\<close>, \<open>80\<close>, \<open>Enterprise\<close>, \<open>EMEA\<close>) otherwise, and
  \<open>competitor_price\<close> is \<open>cogs * 1.3\<close>. The later stages of \<open>recommend_price\<close> work on this
  context with the policy bounds merged in, so no enriched field is overwritten.
\<close>

theorem enrich_context_defaults:
  "\<exists>c. enrich_context e s cid q co ch cu = Inr c \<and>
     product_family c =
       Some (case product_lookup e s of None \<Rightarrow> ''Widgets'' | Some r \<Rightarrow> products_family r) \<and>
     cogs c =
       Some (case product_lookup e s of
               None \<Rightarrow> 80
             | Some r \<Rightarrow> (case cost_lookup e (products_product_id r) of
                             None \<Rightarrow> 80 | Some x \<Rightarrow> cogs_cogs x)) \<and>
     customer_segment c =
       Some (case customer_lookup e cid of None \<Rightarrow> ''Enterprise'' | Some r \<Rightarrow> customers_segment r) \<and>
     region c =
       Some (case customer_lookup e cid of None \<Rightarrow> ''EMEA'' | Some r \<Rightarrow> customers_region r) \<and>
     (\<exists>cg. cogs c = Some cg \<and> competitor_price c = Some (cg * 1.3)) \<and>
     (\<forall>sel. select_prices e s cid q co ch cu = Inr sel \<longrightarrow>
        sel_context sel = c\<lparr>rules := Some (sel_rules sel)\<rparr>)"
proof -
  obtain c where c: "enrich_context e s cid q co ch cu = Inr c"
    and fam: "product_family c =
       Some (case product_lookup e s of None \<Rightarrow> ''Widgets'' | Some r \<Rightarrow> products_family r)"
    and cg: "cogs c =
       Some (case product_lookup e s of
               None \<Rightarrow> 80
             | Some r \<Rightarrow> (case cost_lookup e (products_product_id r) of
                             None \<Rightarrow> 80 | Some x \<Rightarrow> cogs_cogs x))"
    and seg: "customer_segment c =
       Some (case customer_lookup e cid of None \<Rightarrow> ''Enterprise'' | Some r \<Rightarrow> customers_segment r)"
    and reg: "region c =
       Some (case customer_lookup e cid of None \<Rightarrow> ''EMEA'' | Some r \<Rightarrow> customers_region r)"
    and comp: "\<exists>cg. cogs c = Some cg \<and> competitor_price c = Some (cg * 1.3)"
    using enrich_context_fields[of e s cid q co ch cu] by blast
  have "\<forall>sel. select_prices e s cid q co ch cu = Inr sel \<longrightarrow>
        sel_context sel = c\<lparr>rules := Some (sel_rules sel)\<rparr>"
    using select_prices_context[of e s cid q co ch cu] c by auto
  with c fam cg seg reg comp show ?thesis by blast
qed

theorem enrich_context_defaults_witness:
  "\<exists>c sel. enrich_context example_env ''SKU-001'' ''C-404'' 10 ''DE'' ''Direct'' ''EUR'' = Inr c \<and>
     product_family c = Some ''Gadgets'' \<and> cogs c = Some 50 \<and>
     customer_segment c = Some ''Enterprise'' \<and> region c = Some ''EMEA'' \<and>
     competitor_price c = Some 65 \<and>
     select_prices example_env ''SKU-001'' ''C-404'' 10 ''DE'' ''Direct'' ''EUR'' = Inr sel \<and>
     sel_context sel = c\<lparr>rules := Some (sel_rules sel)\<rparr>"
proof -
  have "policy_df example_env = Frame []" by (simp add: example_env_def)
  then obtain sel where
    sel: "select_prices example_env ''SKU-001'' ''C-404'' 10 ''DE'' ''Direct'' ''EUR'' = Inr sel"
    using select_prices_returns by blast
  have p: "product_lookup example_env ''SKU-001'' =
      Some \<lparr>products_sku = ''SKU-001'', products_product_id = ''P-1'', products_family = ''Gadgets''\<rparr>"
    by (simp add: product_lookup_def example_env_def)
  have k: "cost_lookup example_env ''P-1'' = Some \<lparr>cogs_product_id = ''P-1'', cogs_cogs = 50\<rparr>"
    by (simp add: cost_lookup_def example_env_def)
  have u: "customer_lookup example_env ''C-404'' = None"
    by (simp add: customer_lookup_def example_env_def)
  from enrich_context_defaults[of example_env "''SKU-001''" "''C-404''" 10 "''DE''" "''Direct''" "''EUR''"]
  show ?thesis using sel by (auto simp: p k u)
qed

text \<open>
  C9. Whatever exception the pipeline of \<open>recommend_price\<close> raises, at whatever stage,
  \<open>recommend\<close> returns the error form with the message of the exception; otherwise it returns
  the recommendation that \<open>recommend_price\<close> built, with all its fields. There is no third
  form. An exception does occur: with a policy table that could not be loaded, the rules
  agent raises \<open>KeyError('region')\<close> and \<open>recommend\<close> returns the error \<open>'region'\<close>.
\<close>

theorem recommend_error_boundary:
  "(\<forall>err. recommend_price e s cid q co ch cu = Inl err \<longrightarrow>
      recommend e s cid q co ch cu = Error (str_of_error err)) \<and>
   (\<forall>r. recommend_price e s cid q co ch cu = Inr r \<longrightarrow> recommend e s cid q co ch cu = Result r) \<and>
   ((\<exists>r. recommend e s cid q co ch cu = Result r) \<or> (\<exists>m. recommend e s cid q co ch cu = Error m)) \<and>
   (\<forall>err. select_prices e s cid q co ch cu = Inl err \<longrightarrow>
      recommend e s cid q co ch cu = Error (str_of_error err)) \<and>
   (\<forall>c err. enrich_context e s cid q co ch cu = Inr c \<and> rules_execute e c = Inl err \<longrightarrow>
      recommend e s cid q co ch cu = Error (str_of_error err)) \<and>
   (policy_df e = NoColumns \<longrightarrow>
      recommend e s cid q co ch cu = Error (CHR 0x27 # ''region'' @ [CHR 0x27]))"
proof -
  have a: "recommend e s cid q co ch cu = Error (str_of_error err)"
    if "recommend_price e s cid q co ch cu = Inl err" for err
    using that by (simp add: recommend_def)
  have b: "recommend e s cid q co ch cu = Result r"
    if "recommend_price e s cid q co ch cu = Inr r" for r
    using that by (simp add: recommend_def)
  have c: "(\<exists>r. recommend e s cid q co ch cu = Result r) \<or> (\<exists>m. recommend e s cid q co ch cu = Error m)"
    by (cases "recommend_price e s cid q co ch cu") (simp_all add: recommend_def)
  have d: "recommend e s cid q co ch cu = Error (str_of_error err)"
    if "select_prices e s cid q co ch cu = Inl err" for err
    using that by (simp add: recommend_def recommend_price_def)
  have e': "recommend e s cid q co ch cu = Error (str_of_error err)"
    if "enrich_context e s cid q co ch cu = Inr c \<and> rules_execute e c = Inl err" for c err
    using that by (intro d) (simp add: select_prices_def)
  have f: "recommend e s cid q co ch cu = Error (CHR 0x27 # ''region'' @ [CHR 0x27])"
    if "policy_df e = NoColumns"
  proof -
    obtain c where c: "enrich_context e s cid q co ch cu = Inr c"
      using enrich_context_fields[of e s cid q co ch cu] by blast
    have "rules_execute e c = Inl (KeyError ''region'')"
      using that by (simp add: rules_execute_def Let_def)
    with e'[of c "KeyError ''region''"] c show ?thesis by simp
  qed
  from a b c d e' f show ?thesis by blast
qed

text \<open>
  Both forms occur: the error for the environment without a policy table, the
  recommendation for the example.
\<close>

theorem recommend_error_boundary_witness:
  "policy_df unloaded_env = NoColumns \<and>
   recommend unloaded_env ''SKU-001'' ''C-100'' 10 ''DE'' ''Direct'' ''EUR'' =
     Error (CHR 0x27 # ''region'' @ [CHR 0x27]) \<and>
   (\<exists>r. recommend_price example_env ''SKU-001'' ''C-100'' 10 ''DE'' ''Direct'' ''EUR'' = Inr r \<and>
        recommend example_env ''SKU-001'' ''C-100'' 10 ''DE'' ''Direct'' ''EUR'' = Result r)"
proof -
  have u: "policy_df unloaded_env = NoColumns" by (simp add: unloaded_env_def)
  have "policy_df example_env = Frame []" by (simp add: example_env_def)
  then obtain r where r: "recommend_price example_env ''SKU-001'' ''C-100'' 10 ''DE'' ''Direct'' ''EUR'' = Inr r"
    using recommend_price_returns by blast
  from recommend_error_boundary[of unloaded_env "''SKU-001''" "''C-100''" 10 "''DE''" "''Direct''" "''EUR''"] u
  have 1: "recommend unloaded_env ''SKU-001'' ''C-100'' 10 ''DE'' ''Direct'' ''EUR'' =
     Error (CHR 0x27 # ''region'' @ [CHR 0x27])" by blast
  from recommend_error_boundary[of example_env "''SKU-001''" "''C-100''" 10 "''DE''" "''Direct''" "''EUR''"] r
  have 2: "recommend example_env ''SKU-001'' ''C-100'' 10 ''DE'' ''Direct'' ''EUR'' = Result r" by blast
  from u 1 2 r show ?thesis by blast
qed

text \<open>
  C10 (as amended). For every call of \<open>score_price\<close> the enriched context has neither
  \<open>current_price\<close> nor \<open>target_price\<close>, so the elasticity agent takes 100 as the current price:
  whenever the call returns, the demand change it reports is
  \<open>adjusted_elasticity * (proposed_price - 100) / 100\<close> rounded to three decimals (a multiple
  of 0.001 within 0.0005 of it; which one, when it lies halfway between two, depends on the
  float), whatever the cost of the product; it is 0 when the proposed price is 100, and the
  unrounded product is 0 exactly when the proposed price is 100. The call returns whenever
  the policy table is loaded and the proposed price is not 0.
\<close>

theorem score_price_baseline:
  "\<exists>c. enrich_context e s cid q co ch cu = Inr c \<and>
     current_price c = None \<and> target_price c = None \<and>
     (\<forall>r. score_price e s cid q co ch cu price = Inr r \<longrightarrow>
        rounds_to (adjusted_elasticity c * ((price - 100) / 100)) 3 (elasticity_impact r) \<and>
        (price = 100 \<longrightarrow> elasticity_impact r = 0)) \<and>
     (adjusted_elasticity c * ((price - 100) / 100) = 0 \<longleftrightarrow> price = 100) \<and>
     (price \<noteq> 0 \<and> (\<exists>rows. policy_df e = Frame rows) \<longrightarrow>
        (\<exists>r. score_price e s cid q co ch cu price = Inr r))"
proof -
  obtain c where c: "enrich_context e s cid q co ch cu = Inr c"
    and none: "current_price c = None" "target_price c = None"
    using enrich_context_fields[of e s cid q co ch cu] by blast
  let ?c = "c\<lparr>proposed_price := Some price\<rparr>"
  have pcp: "price_change_pct ?c = (price - 100) / 100"
    by (simp add: price_change_pct_def current_price_of_def proposed_price_of_def get_or_def none)
  have imp: "rounds_to (adjusted_elasticity c * ((price - 100) / 100)) 3 (elasticity_impact r) \<and>
        (price = 100 \<longrightarrow> elasticity_impact r = 0)"
    if "score_price e s cid q co ch cu price = Inr r" for r
  proof -
    from score_price_fields[OF that] c obtain el where
      el: "elasticity_execute e ?c = Inr el" "elasticity_impact r = demand_change_pct el"
      by auto
    have rt: "rounds_to (adjusted_elasticity c * ((price - 100) / 100)) 3 (elasticity_impact r)"
      using el elasticity_execute_rounds(2)[OF el(1)] pcp by (simp add: demand_change_def)
    have "elasticity_impact r = 0" if "price = 100"
      using rt that rounds_to_0[of 3 "elasticity_impact r"] by simp
    with rt show ?thesis by blast
  qed
  have zero: "adjusted_elasticity c * ((price - 100) / 100) = 0 \<longleftrightarrow> price = 100"
    using adjusted_elasticity_neg[of c] by auto
  have ret: "\<exists>r. score_price e s cid q co ch cu price = Inr r"
    if "price \<noteq> 0 \<and> (\<exists>rows. policy_df e = Frame rows)"
    using that score_price_returns by blast
  from c none imp zero ret show ?thesis by blast
qed

text \<open>
  The example request at the proposed price 100.
\<close>

theorem score_price_baseline_witness:
  "\<exists>c r. enrich_context example_env ''SKU-001'' ''C-100'' 10 ''DE'' ''Direct'' ''EUR'' = Inr c \<and>
     score_price example_env ''SKU-001'' ''C-100'' 10 ''DE'' ''Direct'' ''EUR'' 100 = Inr r \<and>
     rounds_to (adjusted_elasticity c * ((100 - 100) / 100)) 3 (elasticity_impact r) \<and>
     elasticity_impact r = 0"
proof -
  have f: "(100::real) \<noteq> 0 \<and> (\<exists>rows. policy_df example_env = Frame rows)"
    by (simp add: example_env_def)
  from score_price_baseline[of example_env "''SKU-001''" "''C-100''" 10 "''DE''" "''Direct''" "''EUR''" 100] f
  show ?thesis by blast
qed

text \<open>
  The claim as stated has the reported demand change be 0 only at the price 100. At the
  price 100.01 the product is -0.0001632 and the reported value is 0.
\<close>

theorem score_price_rounds_to_zero_counterexample:
  "score_price example_env ''SKU-001'' ''C-100'' 10 ''DE'' ''Direct'' ''EUR'' 100.01 =
     Inr \<lparr>p_win = 0.15, expected_margin = 7.5, approval_band = ''REVIEW'',
          elasticity_impact = 0\<rparr> \<and>
   (100.01 :: real) \<noteq> 100"
  by code_simp

end
